theory Spec2Isabelle
  imports Complex_Main "HOL-Library.Multiset"
begin

section \<open>The drawing editor: data model\<close>

text \<open>
  The program is \<^verbatim>\<open>drawing_editor.py\<close>: a Tkinter canvas (\<^verbatim>\<open>DrawCanvas\<close>) holding
  \<^verbatim>\<open>Shape\<close> objects (\<^verbatim>\<open>Line\<close>, \<^verbatim>\<open>Rectangle\<close>) and \<^verbatim>\<open>Group\<close> objects, and a
  \<^verbatim>\<open>FileManager\<close>. Python objects have identity and are mutated in place, and the lists of the
  canvas hold references to them. The model therefore has two heaps, one of shapes and one
  of groups: a reference is an index into the heap, allocation appends to the heap, a field
  assignment is a list update. Membership tests and \<^verbatim>\<open>list.remove\<close> compare objects by
  identity (neither class defines \<^verbatim>\<open>__eq__\<close>), which is equality of references here.
\<close>

datatype error = IndexError | ValueError | TclError | AttributeError | FileNotFoundError

text \<open>An exception leaves the function at once: \<open>bind_err m f\<close> runs \<open>f\<close> on the result of
  \<open>m\<close> unless \<open>m\<close> raised.\<close>

definition bind_err :: "error + 'a \<Rightarrow> ('a \<Rightarrow> error + 'b) \<Rightarrow> error + 'b" where
  "bind_err m f = (case m of Inl e \<Rightarrow> Inl e | Inr v \<Rightarrow> f v)"

text \<open>
  A coordinate is a Python \<^verbatim>\<open>int\<close> (pointer events, loaded files) or a \<^verbatim>\<open>float\<close> (what the
  render surface returns, and whatever is computed from it). Floats are modelled by exact
  rationals: the program only adds, subtracts and halves pixel coordinates, and these
  operations are exact on doubles as long as the values stay small dyadic rationals.
\<close>

datatype num = PyInt int | PyFloat rat

fun num_val :: "num \<Rightarrow> rat" where
  "num_val (PyInt i) = of_int i"
| "num_val (PyFloat r) = r"

text \<open>\<^verbatim>\<open>a + b\<close> and \<^verbatim>\<open>a - b\<close>: an \<^verbatim>\<open>int\<close> result only when both operands are \<^verbatim>\<open>int\<close>.\<close>

fun num_add :: "num \<Rightarrow> num \<Rightarrow> num" where
  "num_add (PyInt a) (PyInt b) = PyInt (a + b)"
| "num_add a b = PyFloat (num_val a + num_val b)"

fun num_sub :: "num \<Rightarrow> num \<Rightarrow> num" where
  "num_sub (PyInt a) (PyInt b) = PyInt (a - b)"
| "num_sub a b = PyFloat (num_val a - num_val b)"

text \<open>\<^verbatim>\<open>a / 2\<close>: true division, always a \<^verbatim>\<open>float\<close>.\<close>

definition num_half :: "num \<Rightarrow> num" where
  "num_half a = PyFloat (num_val a / 2)"

datatype shape_class = Line | Rectangle

text \<open>
  A \<^verbatim>\<open>Shape\<close> object. \<open>style\<close> is the attribute that only \<^verbatim>\<open>Rectangle.__init__\<close> sets;
  \<open>shape_id\<close> is \<^verbatim>\<open>None\<close> until \<^verbatim>\<open>update\<close> has drawn the shape; \<open>groups\<close> is the stack of
  references to groups, the innermost last.
\<close>

record shape =
  cls :: shape_class
  x1 :: num
  y1 :: num
  x2 :: num
  y2 :: num
  color :: string
  style :: "string option"
  shape_id :: "nat option"
  groups :: "nat list"

text \<open>A \<^verbatim>\<open>Group\<close> object; \<open>g_shapes\<close> is its attribute \<^verbatim>\<open>shapes\<close>.\<close>

record group =
  g_shapes :: "nat list"
  indv_shapes :: "nat list"
  sub_grps :: "nat list"

text \<open>
  An item of the render surface (the Tk canvas), as far as the program reads it: its type
  (\<^verbatim>\<open>line\<close>, \<^verbatim>\<open>rectangle\<close>, \<^verbatim>\<open>polygon\<close>), its coordinate list and the options the program
  sets or queries.
\<close>

record item =
  itype :: string
  icoords :: "rat list"
  fill :: string
  outline :: string
  width :: rat
  tags :: "string list"

text \<open>What \<^verbatim>\<open>self.current_shape\<close> holds: \<^verbatim>\<open>None\<close>, a shape object, or (after an edit to a
  sharp rectangle) the integer that \<^verbatim>\<open>create_rectangle\<close> returned.\<close>

datatype current = CNone | CShape nat | CItem nat

text \<open>
  The state: the fields of \<^verbatim>\<open>DrawCanvas\<close>, those of its \<^verbatim>\<open>FileManager\<close>
  (\<open>current_file\<close>, \<open>unsaved_changes\<close>), the item table of the Tk canvas with its id
  counter (Tk numbers items from 1 and never reuses an id), the two heaps, the messages
  shown by \<^verbatim>\<open>show_popup_message\<close> in order, and the text files on disk.
  \<open>start_x\<close> and \<open>start_y\<close> are \<^verbatim>\<open>None\<close> in the source until the first click; every drag
  and release that Tk delivers follows a click, so the model keeps them as integers.
\<close>

record canvas =
  items :: "nat \<rightharpoonup> item"
  next_id :: nat
  sheap :: "shape list"
  gheap :: "group list"
  shapes :: "string list"
  shape_object :: "nat list"
  selected_shapes :: "nat list"
  properties_text_ids :: "nat list"
  current_tool :: "string option"
  current_color :: string
  current_style :: string
  start_x :: int
  start_y :: int
  current_shape :: current
  current_file :: "string option"
  unsaved_changes :: bool
  file_opened :: bool
  mode :: string
  moving :: bool
  canvas_group :: "nat list"
  popups :: "string list"
  disk :: "string \<rightharpoonup> string"

text \<open>\<^verbatim>\<open>DrawCanvas.__init__\<close> and \<^verbatim>\<open>FileManager.__init__\<close>, on an empty disk.\<close>

definition init_canvas :: canvas where
  "init_canvas =
     \<lparr>items = Map.empty, next_id = 1, sheap = [], gheap = [], shapes = [],
      shape_object = [], selected_shapes = [], properties_text_ids = [],
      current_tool = None, current_color = ''black'', current_style = ''s'',
      start_x = 0, start_y = 0, current_shape = CNone, current_file = None,
      unsaved_changes = False, file_opened = False, mode = [], moving = False,
      canvas_group = [], popups = [], disk = Map.empty\<rparr>"

definition show_popup_message :: "string \<Rightarrow> canvas \<Rightarrow> canvas" where
  "show_popup_message message c = c\<lparr>popups := popups c @ [message]\<rparr>"

text \<open>\<^verbatim>\<open>Line.__init__\<close> and \<^verbatim>\<open>Rectangle.__init__\<close> (through \<^verbatim>\<open>Shape.__init__\<close>); the
  reference to the canvas is not stored, there being one canvas.\<close>

definition Line_init :: "num \<Rightarrow> num \<Rightarrow> num \<Rightarrow> num \<Rightarrow> string \<Rightarrow> shape" where
  "Line_init start_x' start_y' end_x end_y col =
     \<lparr>cls = Line, x1 = start_x', y1 = start_y', x2 = end_x, y2 = end_y, color = col,
      style = None, shape_id = None, groups = []\<rparr>"

definition Rectangle_init :: "num \<Rightarrow> num \<Rightarrow> num \<Rightarrow> num \<Rightarrow> string \<Rightarrow> string \<Rightarrow> shape" where
  "Rectangle_init start_x' start_y' end_x end_y col sty =
     \<lparr>cls = Rectangle, x1 = start_x', y1 = start_y', x2 = end_x, y2 = end_y, color = col,
      style = Some sty, shape_id = None, groups = []\<rparr>"

section \<open>Groups\<close>

text \<open>\<^verbatim>\<open>Group.add_shapes\<close>, on the group at \<open>g\<close> and the shape at \<open>s\<close>.\<close>

definition add_shapes :: "nat \<Rightarrow> nat \<Rightarrow> canvas \<Rightarrow> canvas" where
  "add_shapes g s c =
     (let G = (gheap c ! g)\<lparr>g_shapes := g_shapes (gheap c ! g) @ [s]\<rparr>;
          gs = groups (sheap c ! s);
          G' = (if gs \<noteq> [] then
                  (if last gs \<notin> set (sub_grps G)
                   then G\<lparr>sub_grps := sub_grps G @ [last gs]\<rparr> else G)
                else G\<lparr>indv_shapes := indv_shapes G @ [s]\<rparr>)
      in c\<lparr>gheap := (gheap c)[g := G']\<rparr>)"

text \<open>\<^verbatim>\<open>Shape.add_group\<close>.\<close>

definition add_group :: "nat \<Rightarrow> nat \<Rightarrow> canvas \<Rightarrow> canvas" where
  "add_group s g c =
     c\<lparr>sheap := (sheap c)[s := (sheap c ! s)\<lparr>groups := groups (sheap c ! s) @ [g]\<rparr>]\<rparr>"

text \<open>The loop of \<^verbatim>\<open>group_shapes\<close> over the selection.\<close>

fun group_loop :: "nat \<Rightarrow> nat list \<Rightarrow> canvas \<Rightarrow> canvas" where
  "group_loop g [] c = c"
| "group_loop g (s # ss) c = group_loop g ss (add_group s g (add_shapes g s c))"

text \<open>\<^verbatim>\<open>DrawCanvas.group_shapes\<close>; \<^verbatim>\<open>Group()\<close> allocates the new group at the end of the
  heap.\<close>

definition group_shapes :: "canvas \<Rightarrow> canvas" where
  "group_shapes c =
     (if length (selected_shapes c) > 1 then
        let new_group = length (gheap c);
            c1 = c\<lparr>gheap := gheap c @ [\<lparr>g_shapes = [], indv_shapes = [], sub_grps = []\<rparr>]\<rparr>;
            c2 = group_loop new_group (selected_shapes c1) c1;
            c3 = c2\<lparr>canvas_group := canvas_group c2 @ [new_group]\<rparr>
        in show_popup_message ''Group Formed'' c3
      else c)"

text \<open>\<^verbatim>\<open>Group.remove_shapes\<close>: \<^verbatim>\<open>list.remove\<close> raises \<^verbatim>\<open>ValueError\<close> when the shape is not
  in the list, and removes its first occurrence otherwise.\<close>

definition remove_shapes :: "nat \<Rightarrow> nat \<Rightarrow> canvas \<Rightarrow> error + canvas" where
  "remove_shapes g s c =
     (if s \<in> set (g_shapes (gheap c ! g))
      then Inr (c\<lparr>gheap := (gheap c)[g := (gheap c ! g)\<lparr>g_shapes := remove1 s (g_shapes (gheap c ! g))\<rparr>]\<rparr>)
      else Inl ValueError)"

text \<open>The first loop of \<^verbatim>\<open>ungroup_shapes\<close>: what \<^verbatim>\<open>flag\<close> holds when the loop ends or
  breaks.\<close>

fun common_flag :: "shape list \<Rightarrow> nat \<Rightarrow> nat list \<Rightarrow> nat" where
  "common_flag h g [] = 0"
| "common_flag h g (s # ss) =
     (if groups (h ! s) \<noteq> [] then
        (if last (groups (h ! s)) \<noteq> g then 1 else common_flag h g ss)
      else 1)"

text \<open>The second loop: \<^verbatim>\<open>shape.groups = shape.groups[:-1]\<close>, then
  \<^verbatim>\<open>g.remove_shapes(shape)\<close>.\<close>

fun ungroup_loop :: "nat \<Rightarrow> nat list \<Rightarrow> canvas \<Rightarrow> error + canvas" where
  "ungroup_loop g [] c = Inr c"
| "ungroup_loop g (s # ss) c =
     (case remove_shapes g s
             (c\<lparr>sheap := (sheap c)[s := (sheap c ! s)\<lparr>groups := butlast (groups (sheap c ! s))\<rparr>]\<rparr>) of
        Inl e \<Rightarrow> Inl e
      | Inr c' \<Rightarrow> ungroup_loop g ss c')"

text \<open>\<^verbatim>\<open>DrawCanvas.ungroup_shapes\<close>.\<close>

definition ungroup_shapes :: "canvas \<Rightarrow> error + canvas" where
  "ungroup_shapes c =
     (case selected_shapes c of
        [] \<Rightarrow> Inr c
      | s0 # _ \<Rightarrow>
          (let flag = (if groups (sheap c ! s0) \<noteq> []
                       then common_flag (sheap c) (last (groups (sheap c ! s0))) (selected_shapes c)
                       else 1)
           in if flag = 0 then
                (case ungroup_loop (last (groups (sheap c ! s0))) (selected_shapes c) c of
                   Inl e \<Rightarrow> Inl e
                 | Inr c' \<Rightarrow> Inr (show_popup_message ''Objects Ungrouped'' c'))
              else Inr (show_popup_message
                          ''The selected elements do not belong to a common group'' c)))"

section \<open>The render surface\<close>

text \<open>
  The Tk canvas is not part of the repository; the model keeps what the program observes of
  it. An item is created under the next id. \<^verbatim>\<open>tkinter\<close> cuts the argument list of a Tcl call
  at the first \<^verbatim>\<open>None\<close>, so a query with the handle \<^verbatim>\<open>None\<close> (\<^verbatim>\<open>type\<close>, \<^verbatim>\<open>coords\<close>,
  \<^verbatim>\<open>itemcget\<close>, \<^verbatim>\<open>move\<close>) is a Tcl call with too few arguments and raises \<^verbatim>\<open>TclError\<close>, while
  \<^verbatim>\<open>delete\<close> and \<^verbatim>\<open>itemconfig\<close> with \<^verbatim>\<open>None\<close> change nothing. With an id that names no item,
  \<^verbatim>\<open>type\<close> is \<^verbatim>\<open>None\<close>, \<^verbatim>\<open>coords\<close> is the empty list, \<^verbatim>\<open>itemcget\<close> is the empty string, and
  \<^verbatim>\<open>delete\<close>, \<^verbatim>\<open>move\<close> and \<^verbatim>\<open>itemconfig\<close> change nothing.
\<close>

definition create_item :: "item \<Rightarrow> canvas \<Rightarrow> nat \<times> canvas" where
  "create_item it c =
     (next_id c, c\<lparr>items := (items c)(next_id c \<mapsto> it), next_id := Suc (next_id c)\<rparr>)"

text \<open>\<^verbatim>\<open>create_line(x1, y1, x2, y2, fill=color)\<close>.\<close>

definition create_line :: "rat \<Rightarrow> rat \<Rightarrow> rat \<Rightarrow> rat \<Rightarrow> string \<Rightarrow> canvas \<Rightarrow> nat \<times> canvas" where
  "create_line xa ya xb yb col c =
     create_item \<lparr>itype = ''line'', icoords = [xa, ya, xb, yb], fill = col, outline = [],
                  width = 1, tags = []\<rparr> c"

text \<open>\<^verbatim>\<open>create_rectangle(x1, y1, x2, y2, outline=color)\<close>. Tk keeps the corners of a
  rectangle item ordered: the smaller coordinate of each axis first.\<close>

definition create_rectangle :: "rat \<Rightarrow> rat \<Rightarrow> rat \<Rightarrow> rat \<Rightarrow> string \<Rightarrow> canvas \<Rightarrow> nat \<times> canvas" where
  "create_rectangle xa ya xb yb col c =
     create_item \<lparr>itype = ''rectangle'', icoords = [min xa xb, min ya yb, max xa xb, max ya yb],
                  fill = [], outline = col, width = 1, tags = []\<rparr> c"

text \<open>\<^verbatim>\<open>create_polygon(points, outline=color, fill='', smooth=True)\<close>.\<close>

definition create_polygon :: "rat list \<Rightarrow> string \<Rightarrow> canvas \<Rightarrow> nat \<times> canvas" where
  "create_polygon points col c =
     create_item \<lparr>itype = ''polygon'', icoords = points, fill = [], outline = col,
                  width = 1, tags = []\<rparr> c"

definition tk_delete :: "nat option \<Rightarrow> canvas \<Rightarrow> canvas" where
  "tk_delete h c = (case h of None \<Rightarrow> c | Some i \<Rightarrow> c\<lparr>items := (items c)(i := None)\<rparr>)"

text \<open>\<^verbatim>\<open>delete("all")\<close>.\<close>

definition tk_delete_all :: "canvas \<Rightarrow> canvas" where
  "tk_delete_all c = c\<lparr>items := Map.empty\<rparr>"

definition tk_type :: "nat option \<Rightarrow> canvas \<Rightarrow> error + string option" where
  "tk_type h c = (case h of None \<Rightarrow> Inl TclError | Some i \<Rightarrow> Inr (map_option itype (items c i)))"

definition tk_coords :: "nat option \<Rightarrow> canvas \<Rightarrow> error + rat list" where
  "tk_coords h c =
     (case h of None \<Rightarrow> Inl TclError
      | Some i \<Rightarrow> Inr (case items c i of None \<Rightarrow> [] | Some it \<Rightarrow> icoords it))"

text \<open>\<^verbatim>\<open>itemcget(id, "fill")\<close>, \<^verbatim>\<open>itemcget(id, "outline")\<close> and \<^verbatim>\<open>itemcget(id, "tags")\<close>; the
  program asks for \<^verbatim>\<open>fill\<close> of line items and for \<^verbatim>\<open>outline\<close> and \<^verbatim>\<open>tags\<close> of rectangle
  items only. The tags come back as one string, separated yb spaces.\<close>

definition itemcget_fill :: "nat option \<Rightarrow> canvas \<Rightarrow> error + string" where
  "itemcget_fill h c =
     (case h of None \<Rightarrow> Inl TclError
      | Some i \<Rightarrow> Inr (case items c i of None \<Rightarrow> [] | Some it \<Rightarrow> fill it))"

definition itemcget_outline :: "nat option \<Rightarrow> canvas \<Rightarrow> error + string" where
  "itemcget_outline h c =
     (case h of None \<Rightarrow> Inl TclError
      | Some i \<Rightarrow> Inr (case items c i of None \<Rightarrow> [] | Some it \<Rightarrow> outline it))"

fun join_spaces :: "string list \<Rightarrow> string" where
  "join_spaces [] = []"
| "join_spaces [t] = t"
| "join_spaces (t # ts) = t @ '' '' @ join_spaces ts"

definition itemcget_tags :: "nat option \<Rightarrow> canvas \<Rightarrow> error + string" where
  "itemcget_tags h c =
     (case h of None \<Rightarrow> Inl TclError
      | Some i \<Rightarrow> Inr (case items c i of None \<Rightarrow> [] | Some it \<Rightarrow> join_spaces (tags it)))"

text \<open>\<^verbatim>\<open>move(id, dx, dy)\<close>: \<open>dx\<close> is added to the coordinates at even positions, \<open>dy\<close> to
  those at odd positions.\<close>

fun shift_coords :: "rat \<Rightarrow> rat \<Rightarrow> rat list \<Rightarrow> rat list" where
  "shift_coords dx dy (px # py # ps) = (px + dx) # (py + dy) # shift_coords dx dy ps"
| "shift_coords dx dy ps = ps"

definition tk_move :: "nat option \<Rightarrow> rat \<Rightarrow> rat \<Rightarrow> canvas \<Rightarrow> error + canvas" where
  "tk_move h dx dy c =
     (case h of None \<Rightarrow> Inl TclError
      | Some i \<Rightarrow>
          (case items c i of None \<Rightarrow> Inr c
           | Some it \<Rightarrow>
               Inr (c\<lparr>items := (items c)(i \<mapsto> it\<lparr>icoords := shift_coords dx dy (icoords it)\<rparr>)\<rparr>)))"

text \<open>\<^verbatim>\<open>itemconfig(id, width=w)\<close> and \<^verbatim>\<open>itemconfig(id, fill=color)\<close>.\<close>

definition itemconfig_width :: "nat option \<Rightarrow> rat \<Rightarrow> canvas \<Rightarrow> canvas" where
  "itemconfig_width h w c =
     (case h of None \<Rightarrow> c
      | Some i \<Rightarrow> (case items c i of None \<Rightarrow> c
                   | Some it \<Rightarrow> c\<lparr>items := (items c)(i \<mapsto> it\<lparr>width := w\<rparr>)\<rparr>))"

definition itemconfig_fill :: "nat option \<Rightarrow> string \<Rightarrow> canvas \<Rightarrow> canvas" where
  "itemconfig_fill h col c =
     (case h of None \<Rightarrow> c
      | Some i \<Rightarrow> (case items c i of None \<Rightarrow> c
                   | Some it \<Rightarrow> c\<lparr>items := (items c)(i \<mapsto> it\<lparr>fill := col\<rparr>)\<rparr>))"

section \<open>Shapes on the render surface\<close>

text \<open>\<^verbatim>\<open>Rectangle.draw_rounded_rectangle\<close>: a smoothed polygon through twenty points.\<close>

definition draw_rounded_rectangle ::
  "rat \<Rightarrow> rat \<Rightarrow> rat \<Rightarrow> rat \<Rightarrow> rat \<Rightarrow> string \<Rightarrow> canvas \<Rightarrow> nat \<times> canvas" where
  "draw_rounded_rectangle xa ya xb yb radius col c =
     create_polygon
       [xa + radius, ya, xa + radius, ya, xb - radius, ya, xb - radius, ya, xb, ya,
        xb, ya + radius, xb, ya + radius, xb, yb - radius, xb, yb - radius, xb, yb,
        xb - radius, yb, xb - radius, yb, xa + radius, yb, xa + radius, yb, xa, yb,
        xa, yb - radius, xa, yb - radius, xa, ya + radius, xa, ya + radius, xa, ya]
       col c"

text \<open>The test \<^verbatim>\<open>if self.shape_id:\<close>; \<^verbatim>\<open>None\<close> and \<^verbatim>\<open>0\<close> are false.\<close>

definition truthy_id :: "nat option \<Rightarrow> bool" where
  "truthy_id h = (case h of None \<Rightarrow> False | Some i \<Rightarrow> i \<noteq> 0)"

definition set_shape_id :: "nat \<Rightarrow> nat \<Rightarrow> canvas \<Rightarrow> canvas" where
  "set_shape_id s i c = c\<lparr>sheap := (sheap c)[s := (sheap c ! s)\<lparr>shape_id := Some i\<rparr>]\<rparr>"

text \<open>
  \<^verbatim>\<open>Line.update\<close> and \<^verbatim>\<open>Rectangle.update\<close>, chosen yb the class of the object at \<open>s\<close>: the
  old item is deleted, a new one is created from the arguments (not from the stored
  fields) and its id stored. A rectangle with a style other than \<^verbatim>\<open>s\<close> and \<^verbatim>\<open>r\<close> gets no
  new item.
\<close>

definition update :: "nat \<Rightarrow> num \<Rightarrow> num \<Rightarrow> num \<Rightarrow> num \<Rightarrow> canvas \<Rightarrow> canvas" where
  "update s sx sy ex ey c =
     (let sh = sheap c ! s;
          c1 = (if truthy_id (shape_id sh) then tk_delete (shape_id sh) c else c)
      in case cls sh of
           Line \<Rightarrow>
             (case create_line (num_val sx) (num_val sy) (num_val ex) (num_val ey) (color sh) c1 of
                (i, c2) \<Rightarrow> set_shape_id s i c2)
         | Rectangle \<Rightarrow>
             (if style sh = Some ''s'' then
                (case create_rectangle (num_val sx) (num_val sy) (num_val ex) (num_val ey)
                        (color sh) c1 of
                   (i, c2) \<Rightarrow> set_shape_id s i c2)
              else if style sh = Some ''r'' then
                (case draw_rounded_rectangle (num_val sx) (num_val sy) (num_val ex) (num_val ey) 20
                        (color sh) c1 of
                   (i, c2) \<Rightarrow> set_shape_id s i c2)
              else c1))"

text \<open>Allocation of a shape object.\<close>

definition alloc_shape :: "shape \<Rightarrow> canvas \<Rightarrow> nat \<times> canvas" where
  "alloc_shape sh c = (length (sheap c), c\<lparr>sheap := sheap c @ [sh]\<rparr>)"

text \<open>\<^verbatim>\<open>DrawCanvas.draw_shape\<close>. An integer in \<^verbatim>\<open>current_shape\<close> has no method \<^verbatim>\<open>update\<close>.\<close>

definition draw_shape :: "num \<Rightarrow> num \<Rightarrow> num \<Rightarrow> num \<Rightarrow> canvas \<Rightarrow> error + canvas" where
  "draw_shape sx sy ex ey c =
     (case current_shape c of
        CNone \<Rightarrow> Inr c
      | CShape s \<Rightarrow>
          Inr ((if \<not> file_opened c then update s sx sy ex ey c else c)\<lparr>current_tool := None\<rparr>)
      | CItem i \<Rightarrow>
          (if i = 0 then Inr c
           else if \<not> file_opened c then Inl AttributeError
           else Inr (c\<lparr>current_tool := None\<rparr>)))"

section \<open>Editing operations\<close>

text \<open>\<^verbatim>\<open>DrawCanvas.clear_properties_text\<close>.\<close>

definition clear_properties_text :: "canvas \<Rightarrow> canvas" where
  "clear_properties_text c =
     (fold (\<lambda>text_id. tk_delete (Some text_id)) (properties_text_ids c) c)
       \<lparr>properties_text_ids := []\<rparr>"

text \<open>The loop of \<^verbatim>\<open>delete_shape\<close>; \<^verbatim>\<open>shape_object.remove\<close> raises \<^verbatim>\<open>ValueError\<close> for a shape
  that is not in the list.\<close>

fun delete_loop :: "nat list \<Rightarrow> canvas \<Rightarrow> error + canvas" where
  "delete_loop [] c = Inr c"
| "delete_loop (s # ss) c =
     (let c1 = tk_delete (shape_id (sheap c ! s)) c
      in if s \<in> set (shape_object c1)
         then delete_loop ss (c1\<lparr>shape_object := remove1 s (shape_object c1)\<rparr>)
         else Inl ValueError)"

text \<open>\<^verbatim>\<open>DrawCanvas.delete_shape\<close>.\<close>

definition delete_shape :: "canvas \<Rightarrow> error + canvas" where
  "delete_shape c =
     bind_err (delete_loop (selected_shapes c) c) (\<lambda>c'. Inr (c'\<lparr>selected_shapes := []\<rparr>))"

text \<open>The list comprehension of \<^verbatim>\<open>copy_shape\<close>: \<^verbatim>\<open>offset_x\<close> at even positions,
  \<^verbatim>\<open>offset_y\<close> at odd ones, counted from \<open>i\<close>.\<close>

fun offset_coords :: "nat \<Rightarrow> rat \<Rightarrow> rat \<Rightarrow> rat list \<Rightarrow> rat list" where
  "offset_coords i offset_x offset_y [] = []"
| "offset_coords i offset_x offset_y (coord # coords) =
     (if i mod 2 = 0 then coord + offset_x else coord + offset_y)
       # offset_coords (Suc i) offset_x offset_y coords"

text \<open>The string test \<^verbatim>\<open>"r" in tags\<close>: the letter occurs in the string.\<close>

definition style_of_tags :: "string \<Rightarrow> string" where
  "style_of_tags ts = (if CHR ''r'' \<in> set ts then ''r'' else ''s'')"

text \<open>One round of the loop of \<^verbatim>\<open>copy_shape\<close>, for the selected shape at \<open>s\<close>. A list
  index past the end raises \<^verbatim>\<open>IndexError\<close>. The copy is a new object, appended to
  \<open>shape_object\<close> and drawn by \<open>draw_shape\<close>; an item of any other type than
  \<^verbatim>\<open>rectangle\<close> and \<^verbatim>\<open>line\<close> is passed over.\<close>

definition copy_one :: "nat \<Rightarrow> canvas \<Rightarrow> error + canvas" where
  "copy_one s c =
     (let h = shape_id (sheap c ! s) in
      bind_err (tk_coords h c) (\<lambda>coords.
      bind_err (tk_type h c) (\<lambda>shape_type.
      let new_coords = offset_coords 0 50 50 coords in
      if shape_type = Some ''rectangle'' then
        bind_err (itemcget_outline h c) (\<lambda>col.
        bind_err (itemcget_tags h c) (\<lambda>ts.
        if length new_coords < 4 then Inl IndexError
        else
          (case alloc_shape (Rectangle_init (PyFloat (new_coords ! 0)) (PyFloat (new_coords ! 1))
                               (PyFloat (new_coords ! 2)) (PyFloat (new_coords ! 3)) col
                               (style_of_tags ts)) c of
             (r, c1) \<Rightarrow>
               draw_shape (PyFloat (new_coords ! 0)) (PyFloat (new_coords ! 1))
                          (PyFloat (new_coords ! 2)) (PyFloat (new_coords ! 3))
                          (c1\<lparr>current_shape := CShape r, shape_object := shape_object c1 @ [r]\<rparr>))))
      else if shape_type = Some ''line'' then
        bind_err (itemcget_fill h c) (\<lambda>col.
        if length new_coords < 4 then Inl IndexError
        else
          (case alloc_shape (Line_init (PyFloat (new_coords ! 0)) (PyFloat (new_coords ! 1))
                               (PyFloat (new_coords ! 2)) (PyFloat (new_coords ! 3)) col) c of
             (r, c1) \<Rightarrow>
               draw_shape (PyFloat (new_coords ! 0)) (PyFloat (new_coords ! 1))
                          (PyFloat (new_coords ! 2)) (PyFloat (new_coords ! 3))
                          (c1\<lparr>current_shape := CShape r, shape_object := shape_object c1 @ [r]\<rparr>)))
      else Inr c)))"

fun copy_loop :: "nat list \<Rightarrow> canvas \<Rightarrow> error + canvas" where
  "copy_loop [] c = Inr c"
| "copy_loop (s # ss) c = bind_err (copy_one s c) (copy_loop ss)"

text \<open>\<^verbatim>\<open>DrawCanvas.copy_shape\<close>.\<close>

definition copy_shape :: "canvas \<Rightarrow> error + canvas" where
  "copy_shape c = copy_loop (selected_shapes c) c"

text \<open>The body shared by both parts of \<^verbatim>\<open>move_shape\<close>: the shape is taken out of
  \<open>shape_object\<close>, its item moved, its stored corners shifted, and the shape appended
  again.\<close>

definition move_one :: "num \<Rightarrow> num \<Rightarrow> nat \<Rightarrow> canvas \<Rightarrow> error + canvas" where
  "move_one dx dy s c =
     (if s \<notin> set (shape_object c) then Inl ValueError
      else
        (let c1 = c\<lparr>shape_object := remove1 s (shape_object c)\<rparr> in
         bind_err (tk_move (shape_id (sheap c1 ! s)) (num_val dx) (num_val dy) c1) (\<lambda>c2.
           let sh = sheap c2 ! s;
               sh' = sh\<lparr>x1 := num_add (x1 sh) dx, x2 := num_add (x2 sh) dx,
                        y1 := num_add (y1 sh) dy, y2 := num_add (y2 sh) dy\<rparr>
           in Inr (c2\<lparr>sheap := (sheap c2)[s := sh'], shape_object := shape_object c2 @ [s]\<rparr>))))"

fun move_loop :: "num \<Rightarrow> num \<Rightarrow> nat list \<Rightarrow> canvas \<Rightarrow> error + canvas" where
  "move_loop dx dy [] c = Inr c"
| "move_loop dx dy (s # ss) c = bind_err (move_one dx dy s c) (move_loop dx dy ss)"

text \<open>\<^verbatim>\<open>DrawCanvas.move_shape\<close>, for a click at \<open>(ex, ey)\<close>. With an empty selection neither
  part runs. \<open>dx\<close> and \<open>dy\<close> are floats: the click minus the mean of the first and third,
  and of the second and fourth, coordinate of the first selected shape's item.\<close>

definition move_shape :: "int \<Rightarrow> int \<Rightarrow> canvas \<Rightarrow> error + canvas" where
  "move_shape ex ey c =
     (let c0 = c\<lparr>moving := True\<rparr> in
      case selected_shapes c0 of
        [] \<Rightarrow> Inr c0
      | s # rest \<Rightarrow>
          bind_err (tk_coords (shape_id (sheap c0 ! s)) c0) (\<lambda>initial_coords.
            if length initial_coords < 4 then Inl IndexError
            else
              (let dx = num_sub (PyInt ex)
                          (num_half (PyFloat (initial_coords ! 2 + initial_coords ! 0)));
                   dy = num_sub (PyInt ey)
                          (num_half (PyFloat (initial_coords ! 3 + initial_coords ! 1)))
               in move_loop dx dy (s # rest) c0)))"

text \<open>\<^verbatim>\<open>DrawCanvas.update_rectangle_style\<close>: a new \<^verbatim>\<open>Rectangle\<close> object is made the current
  shape (it is not put in \<open>shape_object\<close>); for style \<^verbatim>\<open>r\<close> a polygon is drawn, for style
  \<^verbatim>\<open>s\<close> a rectangle item is created and its id replaces the current shape.\<close>

definition update_rectangle_style :: "nat option \<Rightarrow> string \<Rightarrow> string \<Rightarrow> canvas \<Rightarrow> error + canvas" where
  "update_rectangle_style h sty col c =
     bind_err (tk_coords h c) (\<lambda>coords.
       if length coords < 4 then Inl IndexError
       else
         (case alloc_shape (Rectangle_init (PyFloat (coords ! 0)) (PyFloat (coords ! 1))
                              (PyFloat (coords ! 2)) (PyFloat (coords ! 3)) col sty) c of
            (r, c1) \<Rightarrow>
              (let c2 = c1\<lparr>current_shape := CShape r\<rparr> in
               if sty = ''r'' then
                 Inr (snd (draw_rounded_rectangle (coords ! 0) (coords ! 1) (coords ! 2) (coords ! 3)
                             20 col c2))
               else if sty = ''s'' then
                 (case create_rectangle (coords ! 0) (coords ! 1) (coords ! 2) (coords ! 3) col c2 of
                    (i, c3) \<Rightarrow> Inr (c3\<lparr>current_shape := CItem i\<rparr>))
               else Inr c2)))"

text \<open>The answer of \<^verbatim>\<open>simpledialog.askstring\<close>: \<^verbatim>\<open>None\<close> when the prompt is cancelled, the
  text otherwise; both \<^verbatim>\<open>None\<close> and the empty string are false.\<close>

definition truthy_str :: "string option \<Rightarrow> bool" where
  "truthy_str a = (case a of None \<Rightarrow> False | Some t \<Rightarrow> t \<noteq> [])"

text \<open>
  \<^verbatim>\<open>DrawCanvas.edit_selected_shape\<close>; \<open>new_color\<close> and \<open>new_style\<close> are the answers to the
  prompts (a line is asked for the color only). \<^verbatim>\<open>self.selected_shapes[0]\<close> raises
  \<^verbatim>\<open>IndexError\<close> on the empty list. \<^verbatim>\<open>delete_shape\<close> and \<^verbatim>\<open>clear_properties_text\<close> stand after
  the \<^verbatim>\<open>if\<close>/\<^verbatim>\<open>elif\<close>, at the level of the function body.
\<close>

definition edit_selected_shape :: "string option \<Rightarrow> string option \<Rightarrow> canvas \<Rightarrow> error + canvas" where
  "edit_selected_shape new_color new_style c =
     (if length (selected_shapes c) > 1
      then Inr (show_popup_message ''Multiple objects cannot be edited at once'' c)
      else
        (case selected_shapes c of
           [] \<Rightarrow> Inl IndexError
         | s # _ \<Rightarrow>
             (let h = shape_id (sheap c ! s) in
              bind_err (tk_type h c) (\<lambda>shape_type.
              bind_err
                (if shape_type = Some ''rectangle'' then
                   (if truthy_str new_style \<and> truthy_str new_color
                    then update_rectangle_style h (the new_style) (the new_color) c
                    else Inr c)
                 else if shape_type = Some ''line'' then
                   (if truthy_str new_color then Inr (itemconfig_fill h (the new_color) c)
                    else Inr c)
                 else Inr c)
                (\<lambda>c1. bind_err (delete_shape c1) (\<lambda>c2. Inr (clear_properties_text c2)))))))"

section \<open>Selection\<close>

text \<open>
  The part of \<^verbatim>\<open>highlight_shapes_in_area\<close> that fills \<open>selected_shapes\<close>. The hit test of
  Tk gives the items under the dragged area and the first loops match them to shape
  objects; that list, \<^verbatim>\<open>overlapping_shapes_obj\<close>, is the argument here. A shape that is not
  yet selected is appended, and after it every shape of every group of its \<open>groups\<close> stack
  that is not yet selected. Nothing else of the state changes in these loops.
\<close>

text \<open>The loop over \<^verbatim>\<open>group.shapes\<close>.\<close>

fun add_members :: "nat list \<Rightarrow> nat list \<Rightarrow> nat list" where
  "add_members [] selected = selected"
| "add_members (t # ts) selected =
     add_members ts (if t \<notin> set selected then selected @ [t] else selected)"

text \<open>The loop over \<^verbatim>\<open>shape_obj.groups\<close>; \<open>G\<close> is the heap of groups.\<close>

fun add_groups :: "group list \<Rightarrow> nat list \<Rightarrow> nat list \<Rightarrow> nat list" where
  "add_groups G [] selected = selected"
| "add_groups G (g # gs) selected = add_groups G gs (add_members (g_shapes (G ! g)) selected)"

text \<open>The loop over \<^verbatim>\<open>overlapping_shapes_obj\<close>.\<close>

fun select_overlapping :: "nat list \<Rightarrow> canvas \<Rightarrow> canvas" where
  "select_overlapping [] c = c"
| "select_overlapping (shape_obj # rest) c =
     select_overlapping rest
       (if shape_obj \<notin> set (selected_shapes c)
        then c\<lparr>selected_shapes :=
                 add_groups (gheap c) (groups (sheap c ! shape_obj)) (selected_shapes c @ [shape_obj])\<rparr>
        else c)"

section \<open>Pointer events\<close>

text \<open>
  \<^verbatim>\<open>DrawCanvas.on_drag\<close> for a pointer at \<open>(ex, ey)\<close>. \<^verbatim>\<open>highlight_shapes_in_area\<close> rests on
  the hit test and the bounding boxes of Tk; it is the parameter \<open>highlight\<close>, applied to
  the corners of the dragged area.
\<close>

definition on_drag ::
  "(int \<Rightarrow> int \<Rightarrow> int \<Rightarrow> int \<Rightarrow> canvas \<Rightarrow> error + canvas) \<Rightarrow> int \<Rightarrow> int \<Rightarrow> canvas \<Rightarrow> error + canvas" where
  "on_drag highlight ex ey c =
     (if mode c \<in> set [''copy'', ''edit'', ''delete'', ''group'', ''ungroup'']
      then highlight (start_x c) (start_y c) ex ey c
      else if mode c = ''move'' \<and> moving c = False
      then highlight (start_x c) (start_y c) ex ey c
      else if mode c = ''draw'' then
        (let c1 =
           (if truthy_str (current_tool c) then
              (if current_tool c = Some ''line'' then
                 (case alloc_shape (Line_init (PyInt (start_x c)) (PyInt (start_y c)) (PyInt ex)
                                      (PyInt ey) (current_color c)) c of
                    (r, c') \<Rightarrow> c'\<lparr>current_shape := CShape r, shape_object := shape_object c' @ [r]\<rparr>)
               else if current_tool c = Some ''rectangle'' then
                 (case alloc_shape (Rectangle_init (PyInt (start_x c)) (PyInt (start_y c))
                                      (PyInt ex) (PyInt ey) (current_color c) (current_style c)) c of
                    (r, c') \<Rightarrow> c'\<lparr>current_shape := CShape r, shape_object := shape_object c' @ [r]\<rparr>)
               else c)
            else c)
         in draw_shape (PyInt (start_x c1)) (PyInt (start_y c1)) (PyInt ex) (PyInt ey) c1)
      else Inr c)"

text \<open>The test \<^verbatim>\<open>if self.current_shape:\<close>.\<close>

definition truthy_current :: "current \<Rightarrow> bool" where
  "truthy_current cur = (case cur of CNone \<Rightarrow> False | CShape _ \<Rightarrow> True | CItem i \<Rightarrow> i \<noteq> 0)"

text \<open>\<^verbatim>\<open>DrawCanvas.on_release\<close>. \<^verbatim>\<open>Shape.finalize\<close> does nothing; called on an integer it
  raises \<^verbatim>\<open>AttributeError\<close>. An exception leaves the handler before the mode is reset.\<close>

definition on_release ::
  "(int \<Rightarrow> int \<Rightarrow> int \<Rightarrow> int \<Rightarrow> canvas \<Rightarrow> error + canvas) \<Rightarrow> string option \<Rightarrow> string option \<Rightarrow>
   int \<Rightarrow> int \<Rightarrow> canvas \<Rightarrow> error + canvas" where
  "on_release highlight new_color new_style ex ey c =
     (if mode c = ''copy'' then
        bind_err (copy_shape c) (\<lambda>c'. Inr (c'\<lparr>mode := []\<rparr>))
      else if mode c = ''move'' then Inr (c\<lparr>mode := ''ready_to_move''\<rparr>)
      else if mode c = ''draw'' then
        (if truthy_current (current_shape c) then
           (case current_shape c of
              CItem _ \<Rightarrow> Inl AttributeError
            | _ \<Rightarrow> Inr (c\<lparr>current_shape := CNone, current_tool := None, mode := []\<rparr>))
         else Inr c)
      else if mode c = ''edit'' then
        bind_err (edit_selected_shape new_color new_style c) (\<lambda>c'. Inr (c'\<lparr>mode := []\<rparr>))
      else if mode c = ''delete'' then
        bind_err (delete_shape c) (\<lambda>c'. Inr (c'\<lparr>mode := []\<rparr>))
      else if mode c = ''group'' then Inr ((group_shapes c)\<lparr>mode := []\<rparr>)
      else if mode c = ''ungroup'' then
        bind_err (ungroup_shapes c) (\<lambda>c'. Inr (c'\<lparr>mode := []\<rparr>))
      else highlight (start_x c) (start_y c) ex ey c)"

text \<open>\<^verbatim>\<open>DrawCanvas.on_click\<close>.\<close>

definition on_click :: "int \<Rightarrow> int \<Rightarrow> canvas \<Rightarrow> error + canvas" where
  "on_click ex ey c =
     (let c0 = c\<lparr>start_x := ex, start_y := ey\<rparr> in
      bind_err
        (if mode c0 = ''ready_to_move''
         then bind_err (move_shape ex ey c0) (\<lambda>c'. Inr (c'\<lparr>mode := []\<rparr>))
         else Inr c0)
        (\<lambda>c1.
           if selected_shapes c1 \<noteq> [] then
             Inr (clear_properties_text
                    ((fold (\<lambda>s. itemconfig_width (shape_id (sheap c1 ! s)) 1) (selected_shapes c1) c1)
                       \<lparr>selected_shapes := []\<rparr>))
           else Inr c1))"

text \<open>The setters that the menu entries call.\<close>

definition set_mode :: "string \<Rightarrow> canvas \<Rightarrow> canvas" where
  "set_mode action c = c\<lparr>mode := action\<rparr>"

definition set_tool :: "string \<Rightarrow> canvas \<Rightarrow> canvas" where
  "set_tool tool c = c\<lparr>current_tool := Some tool\<rparr>"

definition set_color :: "string \<Rightarrow> canvas \<Rightarrow> canvas" where
  "set_color col c = c\<lparr>current_color := col\<rparr>"

definition set_style :: "string \<Rightarrow> canvas \<Rightarrow> canvas" where
  "set_style sty c = c\<lparr>current_style := sty\<rparr>"

section \<open>Strings and numbers of the text format\<close>

text \<open>\<^verbatim>\<open>str\<close> of a non-negative integer, in decimal.\<close>

fun str_nat :: "nat \<Rightarrow> string" where
  "str_nat n =
     (if n < 10 then [''0123456789'' ! n]
      else str_nat (n div 10) @ [''0123456789'' ! (n mod 10)])"

declare str_nat.simps [simp del]

definition str_int :: "int \<Rightarrow> string" where
  "str_int i = (if i < 0 then ''-'' @ str_nat (nat (- i)) else str_nat (nat i))"

text \<open>
  The digits after the point of a fraction \<open>0 \<le> f < 1\<close>, at most \<open>n\<close> of them and at least
  one. \<^verbatim>\<open>repr\<close> of a float is its exact decimal expansion when that has at most fifteen
  significant digits and the magnitude is between \<^verbatim>\<open>1e-4\<close> and \<^verbatim>\<open>1e16\<close>, which covers the
  whole and half pixels that the program computes; outside of that the model's
  \<open>float_repr\<close> is not Python's.
\<close>

fun frac_digits :: "nat \<Rightarrow> rat \<Rightarrow> string" where
  "frac_digits 0 f = []"
| "frac_digits (Suc n) f =
     (let d = nat \<lfloor>f * 10\<rfloor>; r = f * 10 - of_nat d
      in (''0123456789'' ! d) # (if r = 0 then [] else frac_digits n r))"

definition float_repr :: "rat \<Rightarrow> string" where
  "float_repr r =
     (let a = \<bar>r\<bar>; ip = nat \<lfloor>a\<rfloor>
      in (if r < 0 then ''-'' else []) @ str_nat ip @ ''.'' @ frac_digits 17 (a - of_nat ip))"

text \<open>What an f-string writes for a coordinate.\<close>

fun str_num :: "num \<Rightarrow> string" where
  "str_num (PyInt i) = str_int i"
| "str_num (PyFloat r) = float_repr r"

text \<open>
  \<^verbatim>\<open>str.strip()\<close>: white space is removed at both ends. A character of the model is a code
  point below 256; the white space of Python among these is the space, \<^verbatim>\<open>0x09\<close> to
  \<^verbatim>\<open>0x0D\<close>, \<^verbatim>\<open>0x1C\<close> to \<^verbatim>\<open>0x1F\<close>, \<^verbatim>\<open>0x85\<close> and \<^verbatim>\<open>0xA0\<close>, and the decimal digits among
  them are \<^verbatim>\<open>0\<close> to \<^verbatim>\<open>9\<close>. Text with code points from 256 on is outside the model.
\<close>

definition is_space :: "char \<Rightarrow> bool" where
  "is_space ch = (ch \<in> set [CHR '' '', CHR 0x09, CHR 0x0A, CHR 0x0B, CHR 0x0C, CHR 0x0D,
                             CHR 0x1C, CHR 0x1D, CHR 0x1E, CHR 0x1F, CHR 0x85, CHR 0xA0])"

definition py_strip :: "string \<Rightarrow> string" where
  "py_strip t = rev (dropWhile is_space (rev (dropWhile is_space t)))"

text \<open>\<^verbatim>\<open>str.split(sep)\<close> for a separator of one character: every occurrence splits, so
  the result is never empty and two separators in a row give an empty piece.\<close>

fun split_on :: "char \<Rightarrow> string \<Rightarrow> string list" where
  "split_on sep [] = [[]]"
| "split_on sep (ch # t) =
     (if ch = sep then [] # split_on sep t
      else (case split_on sep t of [] \<Rightarrow> [[ch]] | w # ws \<Rightarrow> (ch # w) # ws))"

text \<open>Reading a text file line by line: \<^verbatim>\<open>\r\n\<close> and \<^verbatim>\<open>\r\<close> are read as \<^verbatim>\<open>\n\<close>, and a
  line ends at \<^verbatim>\<open>\n\<close> or at the end of the file. The model's lines come without their
  \<^verbatim>\<open>\n\<close>, which \<^verbatim>\<open>strip\<close> removes from each line in any case.\<close>

fun universal_newlines :: "string \<Rightarrow> string" where
  "universal_newlines [] = []"
| "universal_newlines [ch] = [if ch = CHR 0x0D then CHR 0x0A else ch]"
| "universal_newlines (ch # ch2 # t) =
     (if ch = CHR 0x0D then
        CHR 0x0A # (if ch2 = CHR 0x0A then universal_newlines t else universal_newlines (ch2 # t))
      else ch # universal_newlines (ch2 # t))"

definition file_lines :: "string \<Rightarrow> string list" where
  "file_lines content =
     (let parts = split_on (CHR 0x0A) (universal_newlines content)
      in if last parts = [] then butlast parts else parts)"

text \<open>
  \<^verbatim>\<open>int(s)\<close> for a string: white space around, an optional sign, then decimal digits,
  with single underscores allowed between digits; anything else raises \<^verbatim>\<open>ValueError\<close>.
\<close>

definition is_digit :: "char \<Rightarrow> bool" where
  "is_digit ch = (ch \<in> set ''0123456789'')"

definition digit_val :: "char \<Rightarrow> nat" where
  "digit_val ch = of_char ch - 48"

definition digits_val :: "string \<Rightarrow> nat" where
  "digits_val ds = foldl (\<lambda>acc ch. 10 * acc + digit_val ch) 0 ds"

definition valid_digits :: "string \<Rightarrow> bool" where
  "valid_digits body = list_all (\<lambda>grp. grp \<noteq> [] \<and> list_all is_digit grp) (split_on (CHR ''_'') body)"

definition py_int :: "string \<Rightarrow> error + int" where
  "py_int str =
     (let t = py_strip str;
          neg = (case t of [] \<Rightarrow> False | ch # _ \<Rightarrow> ch = CHR ''-'');
          body = (case t of [] \<Rightarrow> [] | ch # rest \<Rightarrow> if ch = CHR ''-'' \<or> ch = CHR ''+'' then rest else t)
      in if valid_digits body
         then Inr ((if neg then - 1 else 1) * int (digits_val (filter is_digit body)))
         else Inl ValueError)"

text \<open>\<^verbatim>\<open>args[i]\<close> and \<^verbatim>\<open>args[-k]\<close> raise \<^verbatim>\<open>IndexError\<close> out of range.\<close>

definition arg :: "string list \<Rightarrow> nat \<Rightarrow> error + string" where
  "arg args i = (if i < length args then Inr (args ! i) else Inl IndexError)"

definition arg_from_end :: "string list \<Rightarrow> nat \<Rightarrow> error + string" where
  "arg_from_end args k =
     (if 0 < k \<and> k \<le> length args then Inr (args ! (length args - k)) else Inl IndexError)"

section \<open>The serializer\<close>

text \<open>The string that \<^verbatim>\<open>construct_shape_from_shape_object\<close> appends for one shape: the
  type is that of the shape's item on the canvas (\<^verbatim>\<open>None\<close> prints as \<^verbatim>\<open>None\<close>), the rest
  is read from the attributes of the object. A \<^verbatim>\<open>Line\<close> object has no attribute
  \<^verbatim>\<open>style\<close>.\<close>

definition shape_string :: "string option \<Rightarrow> shape \<Rightarrow> error + string" where
  "shape_string shape_type sh =
     (let ty = (case shape_type of None \<Rightarrow> ''None'' | Some t \<Rightarrow> t);
          front = ty @ '' '' @ str_num (x1 sh) @ '' '' @ str_num (y1 sh) @ '' '' @ str_num (x2 sh)
                     @ '' '' @ str_num (y2 sh) @ '' '' @ color sh
      in if shape_type = Some ''rectangle'' then
           (case style sh of None \<Rightarrow> Inl AttributeError | Some sty \<Rightarrow> Inr (front @ '' '' @ sty))
         else Inr front)"

fun construct_loop :: "nat list \<Rightarrow> canvas \<Rightarrow> error + canvas" where
  "construct_loop [] c = Inr c"
| "construct_loop (s # ss) c =
     bind_err (tk_type (shape_id (sheap c ! s)) c) (\<lambda>shape_type.
     bind_err (shape_string shape_type (sheap c ! s)) (\<lambda>line.
     construct_loop ss (c\<lparr>shapes := shapes c @ [line]\<rparr>)))"

text \<open>\<^verbatim>\<open>DrawCanvas.construct_shape_from_shape_object\<close>.\<close>

definition construct_shape_from_shape_object :: "canvas \<Rightarrow> error + canvas" where
  "construct_shape_from_shape_object c = construct_loop (shape_object c) (c\<lparr>shapes := []\<rparr>)"

text \<open>
  \<^verbatim>\<open>FileManager.save_file\<close>; \<open>answer\<close> is what the save dialog returns (the empty string
  when it is cancelled), asked only when there is no current file. Every string of
  \<open>shapes\<close> is written with a newline after it. Opening the file for writing is taken to
  succeed.
\<close>

definition save_file :: "string \<Rightarrow> canvas \<Rightarrow> error + canvas" where
  "save_file answer c =
     (let filename = (if truthy_str (current_file c) then the (current_file c) else answer)
      in if filename = [] then Inr c
         else
           bind_err (construct_shape_from_shape_object c) (\<lambda>c1.
             Inr (c1\<lparr>disk := (disk c1)(filename \<mapsto> concat (map (\<lambda>line. line @ [CHR 0x0A]) (shapes c1))),
                     unsaved_changes := False\<rparr>)))"

text \<open>One round of the loop of \<^verbatim>\<open>redraw_shapes\<close>, for the string \<open>shape_str\<close>. For a
  rectangle the four numbers are bound to \<^verbatim>\<open>x1, x2, y1, y2\<close> in this order.\<close>

definition redraw_one :: "string \<Rightarrow> canvas \<Rightarrow> error + canvas" where
  "redraw_one shape_str c =
     (let parts = split_on (CHR '' '') shape_str; shape_type = hd parts; args = tl parts in
      if shape_type = ''line'' then
        bind_err (bind_err (arg args 0) py_int) (\<lambda>a0.
        bind_err (bind_err (arg args 1) py_int) (\<lambda>a1.
        bind_err (bind_err (arg args 2) py_int) (\<lambda>a2.
        bind_err (bind_err (arg args 3) py_int) (\<lambda>a3.
        bind_err (arg_from_end args 1) (\<lambda>col.
          (case alloc_shape (Line_init (PyInt a0) (PyInt a1) (PyInt a2) (PyInt a3) col) c of
             (r, c1) \<Rightarrow>
               Inr (update r (PyInt a0) (PyInt a1) (PyInt a2) (PyInt a3)
                      (c1\<lparr>current_shape := CShape r, shape_object := shape_object c1 @ [r]\<rparr>))))))))
      else if shape_type = ''rectangle'' then
        bind_err (bind_err (arg args 0) py_int) (\<lambda>rx1.
        bind_err (bind_err (arg args 1) py_int) (\<lambda>rx2.
        bind_err (bind_err (arg args 2) py_int) (\<lambda>ry1.
        bind_err (bind_err (arg args 3) py_int) (\<lambda>ry2.
        bind_err (arg_from_end args 2) (\<lambda>col.
        bind_err (arg_from_end args 1) (\<lambda>sty.
          (case alloc_shape (Rectangle_init (PyInt rx1) (PyInt ry1) (PyInt rx2) (PyInt ry2) col sty) c of
             (r, c1) \<Rightarrow>
               Inr (update r (PyInt rx1) (PyInt ry1) (PyInt rx2) (PyInt ry2)
                      (c1\<lparr>current_shape := CShape r, shape_object := shape_object c1 @ [r]\<rparr>)))))))))
      else Inr c)"

fun redraw_loop :: "string list \<Rightarrow> canvas \<Rightarrow> error + canvas" where
  "redraw_loop [] c = Inr c"
| "redraw_loop (shape_str # rest) c = bind_err (redraw_one shape_str c) (redraw_loop rest)"

text \<open>\<^verbatim>\<open>DrawCanvas.redraw_shapes\<close>.\<close>

definition redraw_shapes :: "canvas \<Rightarrow> error + canvas" where
  "redraw_shapes c = redraw_loop (shapes c) c"

text \<open>
  \<^verbatim>\<open>FileManager.open_file\<close>; \<open>confirm\<close> is the answer to the question about unsaved changes
  (asked only when there are some) and \<open>filename\<close> what the open dialog returns (the empty
  string when it is cancelled). A file that is not on the disk raises
  \<^verbatim>\<open>FileNotFoundError\<close>.
\<close>

definition open_file :: "bool \<Rightarrow> string \<Rightarrow> canvas \<Rightarrow> error + canvas" where
  "open_file confirm filename c =
     (if unsaved_changes c \<and> \<not> confirm then Inr c
      else if filename = [] then Inr c
      else
        (let c1 = tk_delete_all (c\<lparr>file_opened := True, shapes := []\<rparr>) in
         case disk c1 filename of
           None \<Rightarrow> Inl FileNotFoundError
         | Some content \<Rightarrow>
             bind_err (redraw_shapes (c1\<lparr>shapes := map py_strip (file_lines content)\<rparr>)) (\<lambda>c2.
               Inr (c2\<lparr>current_file := Some filename, unsaved_changes := False\<rparr>))))"

section \<open>Example states\<close>

text \<open>Two lines and a sharp rectangle, not yet drawn, none selected.\<close>

definition three_shapes :: canvas where
  "three_shapes =
     init_canvas\<lparr>sheap := [Line_init (PyInt 0) (PyInt 0) (PyInt 10) (PyInt 10) ''black'',
                            Line_init (PyInt 20) (PyInt 0) (PyInt 30) (PyInt 10) ''red'',
                            Rectangle_init (PyInt 0) (PyInt 20) (PyInt 10) (PyInt 30) ''blue'' ''s''],
                  shape_object := [0, 1, 2]\<rparr>"

text \<open>
  The direct shapes of a new group as the specification words them: the selected shapes
  whose \<open>groups\<close> stack is empty, or whose innermost group is not the innermost group of
  another selected shape.
\<close>

definition spec_direct_shapes :: "canvas \<Rightarrow> nat list" where
  "spec_direct_shapes c =
     filter (\<lambda>s. groups (sheap c ! s) = [] \<or>
                 \<not> list_ex (\<lambda>t. t \<noteq> s \<and> groups (sheap c ! t) \<noteq> [] \<and>
                                  last (groups (sheap c ! t)) = last (groups (sheap c ! s)))
                          (selected_shapes c))
            (selected_shapes c)"

text \<open>Shapes 0 and 2 grouped, then shapes 0 and 1 selected.\<close>

definition grouped_then_selected :: canvas where
  "grouped_then_selected =
     (group_shapes (three_shapes\<lparr>selected_shapes := [0, 2]\<rparr>))\<lparr>selected_shapes := [0, 1]\<rparr>"

text \<open>The document as the claims read it: class, corners, color and style of the shapes of
  \<open>shape_object\<close>, in order.\<close>

definition document :: "canvas \<Rightarrow> (shape_class \<times> num \<times> num \<times> num \<times> num \<times> string \<times> string option) list" where
  "document c =
     map (\<lambda>s. (cls (sheap c ! s), x1 (sheap c ! s), y1 (sheap c ! s), x2 (sheap c ! s),
               y2 (sheap c ! s), color (sheap c ! s), style (sheap c ! s)))
         (shape_object c)"

text \<open>A hit test that finds nothing, for the pointer events of the examples (none of which
  reaches it).\<close>

definition no_highlight :: "int \<Rightarrow> int \<Rightarrow> int \<Rightarrow> int \<Rightarrow> canvas \<Rightarrow> error + canvas" where
  "no_highlight xa ya xb yb c = Inr c"

text \<open>A fresh canvas after the menu entries for a tool, a color and a style, then a click at
  \<open>(xa, ya)\<close>, one drag event at \<open>(xb, yb)\<close> and the release there.\<close>

definition drawn :: "string \<Rightarrow> string \<Rightarrow> string \<Rightarrow> int \<Rightarrow> int \<Rightarrow> int \<Rightarrow> int \<Rightarrow> error + canvas" where
  "drawn tool col sty xa ya xb yb =
     bind_err (on_click xa ya (set_mode ''draw'' (set_tool tool (set_style sty (set_color col init_canvas)))))
       (\<lambda>c. bind_err (on_drag no_highlight xb yb c) (on_release no_highlight None None xb yb))"

text \<open>A black line drawn with two drag events: the click at \<open>(10, 10)\<close>, the pointer seen at
  \<open>(20, 20)\<close> and then at \<open>(100, 100)\<close>, where it is released.\<close>

definition line_two_drags :: "error + canvas" where
  "line_two_drags =
     bind_err (on_click 10 10 (set_mode ''draw'' (set_tool ''line'' (set_color ''black'' init_canvas))))
       (\<lambda>c. bind_err (on_drag no_highlight 20 20 c)
       (\<lambda>c. bind_err (on_drag no_highlight 100 100 c) (on_release no_highlight None None 100 100)))"

text \<open>The first shape of the document selected and the mode \<open>m\<close> set, as the menu entry
  and a drag over the shape leave them.\<close>

definition select_first :: "string \<Rightarrow> canvas \<Rightarrow> error + canvas" where
  "select_first m c = Inr (c\<lparr>mode := m, selected_shapes := [hd (shape_object c)]\<rparr>)"

text \<open>A line whose object keeps the end point \<open>(20,20)\<close> while its item on the canvas ends
  at \<open>(100,100)\<close>: the shape and the item that \<open>line_two_drags\<close> leaves.\<close>

definition stale_line :: canvas where
  "stale_line =
     init_canvas\<lparr>sheap := [(Line_init (PyInt 10) (PyInt 10) (PyInt 20) (PyInt 20) ''black'')\<lparr>shape_id := Some 2\<rparr>],
                 shape_object := [0],
                 items := [2 \<mapsto> \<lparr>itype = ''line'', icoords = [10, 10, 100, 100], fill = ''black'',
                                 outline = [], width = 1, tags = []\<rparr>],
                 next_id := 3\<rparr>"

text \<open>A shape with its stored corners shifted by \<open>(dx, dy)\<close>.\<close>

definition shifted :: "num \<Rightarrow> num \<Rightarrow> shape \<Rightarrow> shape" where
  "shifted dx dy sh =
     sh\<lparr>x1 := num_add (x1 sh) dx, x2 := num_add (x2 sh) dx,
        y1 := num_add (y1 sh) dy, y2 := num_add (y2 sh) dy\<rparr>"

text \<open>On the canvas \<open>c\<close>: the menu entries for a tool, a color and a style, a click at
  \<open>(xa, ya)\<close>, one drag event at \<open>(xb, yb)\<close> and the release there.\<close>

definition draw_on :: "string \<Rightarrow> string \<Rightarrow> string \<Rightarrow> int \<Rightarrow> int \<Rightarrow> int \<Rightarrow> int \<Rightarrow> canvas \<Rightarrow> error + canvas" where
  "draw_on tool col sty xa ya xb yb c =
     bind_err (on_click xa ya (set_mode ''draw'' (set_tool tool (set_style sty (set_color col c)))))
       (\<lambda>c1. bind_err (on_drag no_highlight xb yb c1) (on_release no_highlight None None xb yb))"

text \<open>Two lines and a sharp rectangle drawn on a fresh canvas; they are the shapes 0, 1
  and 2.\<close>

definition three_drawn :: "error + canvas" where
  "three_drawn =
     bind_err (draw_on ''line'' ''black'' ''s'' 0 0 10 10 init_canvas)
       (\<lambda>c. bind_err (draw_on ''line'' ''red'' ''s'' 20 0 30 10 c)
                (draw_on ''rectangle'' ''blue'' ''s'' 0 20 10 30))"

text \<open>The menu entry for the mode \<open>m\<close>, a click (which clears the selection) and a drag
  over the shapes \<open>hits\<close>.\<close>

definition hit_selection :: "string \<Rightarrow> nat list \<Rightarrow> canvas \<Rightarrow> error + canvas" where
  "hit_selection m hits c =
     bind_err (on_click 0 0 (set_mode m c)) (\<lambda>c1. Inr (select_overlapping hits c1))"

text \<open>The shapes 0 and 2 selected in the mode \<^verbatim>\<open>group\<close> and the pointer released: they
  are grouped.\<close>

definition pair_grouped :: "error + canvas" where
  "pair_grouped =
     bind_err three_drawn
       (\<lambda>c. bind_err (hit_selection ''group'' [0, 2] c) (on_release no_highlight None None 0 0))"

text \<open>After that, the menu entry \<^verbatim>\<open>Group Objects\<close> and a click.\<close>

definition pair_grouped_clicked :: canvas where
  "pair_grouped_clicked = projr (bind_err pair_grouped (\<lambda>c. on_click 0 0 (set_mode ''group'' c)))"


text \<open>
  What grouping and ungrouping keep true of the two heaps: the groups on a stack exist, the
  members of a group exist and have the group on their stack, two shapes with a group in
  common have the same innermost group, and a group on the stack of a shape has another
  member.
\<close>

definition groups_consistent :: "canvas \<Rightarrow> bool" where
  "groups_consistent c \<longleftrightarrow>
     (\<forall>s \<in> {..<length (sheap c)}. \<forall>g \<in> set (groups (sheap c ! s)). g < length (gheap c)) \<and>
     (\<forall>g \<in> {..<length (gheap c)}. \<forall>t \<in> set (g_shapes (gheap c ! g)).
        t < length (sheap c) \<and> g \<in> set (groups (sheap c ! t))) \<and>
     (\<forall>s \<in> {..<length (sheap c)}. \<forall>t \<in> {..<length (sheap c)}. \<forall>g \<in> set (groups (sheap c ! s)).
        g \<in> set (groups (sheap c ! t)) \<longrightarrow>
        last (groups (sheap c ! s)) = last (groups (sheap c ! t))) \<and>
     (\<forall>s \<in> {..<length (sheap c)}. \<forall>g \<in> set (groups (sheap c ! s)).
        \<exists>t \<in> set (g_shapes (gheap c ! g)). t \<noteq> s)"

section \<open>Verification: grouping and ungrouping\<close>

lemmas example_defs =
  three_shapes_def init_canvas_def Line_init_def Rectangle_init_def grouped_then_selected_def
  group_shapes_def add_shapes_def add_group_def show_popup_message_def Let_def

lemma sheap_add_shapes [simp]: "sheap (add_shapes g s c) = sheap c"
  by (simp add: add_shapes_def Let_def)

lemma gheap_add_group [simp]: "gheap (add_group s g c) = gheap c"
  by (simp add: add_group_def)

lemma group_loop_frame_ex:
  "\<exists>h G. group_loop g ss c = c\<lparr>sheap := h, gheap := G\<rparr>"
proof (induction ss arbitrary: c)
  case Nil
  have "c = c\<lparr>sheap := sheap c, gheap := gheap c\<rparr>" by simp
  then show ?case unfolding group_loop.simps by blast
next
  case (Cons s ss)
  obtain h G where "group_loop g ss (add_group s g (add_shapes g s c))
      = (add_group s g (add_shapes g s c))\<lparr>sheap := h, gheap := G\<rparr>"
    using Cons.IH by blast
  then have "group_loop g (s # ss) c = c\<lparr>sheap := h, gheap := G\<rparr>"
    by (simp add: add_group_def add_shapes_def Let_def)
  then show ?case by blast
qed

lemma group_loop_frame:
  "group_loop g ss c = c\<lparr>sheap := sheap (group_loop g ss c), gheap := gheap (group_loop g ss c)\<rparr>"
proof -
  obtain h G where e: "group_loop g ss c = c\<lparr>sheap := h, gheap := G\<rparr>"
    using group_loop_frame_ex by blast
  then have "sheap (group_loop g ss c) = h" "gheap (group_loop g ss c) = G" by simp_all
  with e show ?thesis by simp
qed

lemma group_loop_length_sheap [simp]: "length (sheap (group_loop g ss c)) = length (sheap c)"
  by (induction ss arbitrary: c) (simp_all add: add_group_def)

lemma group_loop_length_gheap [simp]: "length (gheap (group_loop g ss c)) = length (gheap c)"
  by (induction ss arbitrary: c) (simp_all add: add_shapes_def Let_def)

lemma group_loop_sheap_other:
  "i \<notin> set ss \<Longrightarrow> sheap (group_loop g ss c) ! i = sheap c ! i"
  by (induction ss arbitrary: c) (auto simp: add_group_def)

lemma group_loop_sheap_member:
  "distinct ss \<Longrightarrow> i \<in> set ss \<Longrightarrow> i < length (sheap c) \<Longrightarrow>
   sheap (group_loop g ss c) ! i = (sheap c ! i)\<lparr>groups := groups (sheap c ! i) @ [g]\<rparr>"
proof (induction ss arbitrary: c)
  case Nil
  then show ?case by simp
next
  case (Cons s ss)
  show ?case
  proof (cases "i = s")
    case True
    with Cons.prems have "i \<notin> set ss" by simp
    then have "sheap (group_loop g ss (add_group s g (add_shapes g s c))) ! i
               = sheap (add_group s g (add_shapes g s c)) ! i"
      by (rule group_loop_sheap_other)
    with True Cons.prems show ?thesis by (simp add: add_group_def)
  next
    case False
    with Cons.prems have "distinct ss" "i \<in> set ss" by simp_all
    moreover from Cons.prems have "i < length (sheap (add_group s g (add_shapes g s c)))"
      by (simp add: add_group_def)
    ultimately have "sheap (group_loop g ss (add_group s g (add_shapes g s c))) ! i
       = (sheap (add_group s g (add_shapes g s c)) ! i)
           \<lparr>groups := groups (sheap (add_group s g (add_shapes g s c)) ! i) @ [g]\<rparr>"
      by (rule Cons.IH)
    with False show ?thesis by (simp add: add_group_def)
  qed
qed

lemma group_loop_gheap_other:
  "j \<noteq> g \<Longrightarrow> gheap (group_loop g ss c) ! j = gheap c ! j"
  by (induction ss arbitrary: c) (auto simp: add_shapes_def Let_def)

lemma group_loop_g_shapes:
  "g < length (gheap c) \<Longrightarrow>
   g_shapes (gheap (group_loop g ss c) ! g) = g_shapes (gheap c ! g) @ ss"
  by (induction ss arbitrary: c) (auto simp: add_shapes_def Let_def)

lemma group_loop_indv_shapes:
  "distinct ss \<Longrightarrow> g < length (gheap c) \<Longrightarrow>
   indv_shapes (gheap (group_loop g ss c) ! g)
     = indv_shapes (gheap c ! g) @ filter (\<lambda>s. groups (sheap c ! s) = []) ss"
proof (induction ss arbitrary: c)
  case Nil
  then show ?case by simp
next
  case (Cons s ss)
  let ?c1 = "add_group s g (add_shapes g s c)"
  from Cons.prems have d: "distinct ss" and ns: "s \<notin> set ss" by simp_all
  have same: "sheap ?c1 ! t = sheap c ! t" if "t \<in> set ss" for t
  proof -
    from that ns have "s \<noteq> t" by auto
    then show ?thesis by (simp add: add_group_def)
  qed
  have "indv_shapes (gheap (group_loop g ss ?c1) ! g)
          = indv_shapes (gheap ?c1 ! g) @ filter (\<lambda>t. groups (sheap ?c1 ! t) = []) ss"
    using d Cons.prems(2) by (intro Cons.IH) (simp_all add: add_shapes_def Let_def)
  also have "filter (\<lambda>t. groups (sheap ?c1 ! t) = []) ss = filter (\<lambda>t. groups (sheap c ! t) = []) ss"
    by (rule filter_cong) (simp_all add: same)
  also have "indv_shapes (gheap ?c1 ! g)
          = indv_shapes (gheap c ! g) @ (if groups (sheap c ! s) = [] then [s] else [])"
    using Cons.prems(2) by (simp add: add_shapes_def Let_def)
  finally show ?case by simp
qed

lemma group_loop_sub_grps_set:
  "distinct ss \<Longrightarrow> g < length (gheap c) \<Longrightarrow>
   set (sub_grps (gheap (group_loop g ss c) ! g))
     = set (sub_grps (gheap c ! g))
       \<union> (\<lambda>s. last (groups (sheap c ! s))) ` {s \<in> set ss. groups (sheap c ! s) \<noteq> []}"
proof (induction ss arbitrary: c)
  case Nil
  then show ?case by simp
next
  case (Cons s ss)
  let ?c1 = "add_group s g (add_shapes g s c)"
  from Cons.prems have d: "distinct ss" and ns: "s \<notin> set ss" by simp_all
  have same: "sheap ?c1 ! t = sheap c ! t" if "t \<in> set ss" for t
  proof -
    from that ns have "s \<noteq> t" by auto
    then show ?thesis by (simp add: add_group_def)
  qed
  have "set (sub_grps (gheap (group_loop g ss ?c1) ! g))
          = set (sub_grps (gheap ?c1 ! g))
            \<union> (\<lambda>t. last (groups (sheap ?c1 ! t))) ` {t \<in> set ss. groups (sheap ?c1 ! t) \<noteq> []}"
    using d Cons.prems(2) by (intro Cons.IH) (simp_all add: add_shapes_def Let_def)
  also have "(\<lambda>t. last (groups (sheap ?c1 ! t))) ` {t \<in> set ss. groups (sheap ?c1 ! t) \<noteq> []}
          = (\<lambda>t. last (groups (sheap c ! t))) ` {t \<in> set ss. groups (sheap c ! t) \<noteq> []}"
    using same by (auto simp: image_iff)
  also have "set (sub_grps (gheap ?c1 ! g))
          = set (sub_grps (gheap c ! g))
            \<union> (if groups (sheap c ! s) \<noteq> [] then {last (groups (sheap c ! s))} else {})"
    using Cons.prems(2) by (auto simp: add_shapes_def Let_def)
  finally show ?case by auto
qed

lemma group_loop_sub_grps_distinct:
  "g < length (gheap c) \<Longrightarrow> distinct (sub_grps (gheap c ! g)) \<Longrightarrow>
   distinct (sub_grps (gheap (group_loop g ss c) ! g))"
proof (induction ss arbitrary: c)
  case Nil
  then show ?case by simp
next
  case (Cons s ss)
  let ?c1 = "add_group s g (add_shapes g s c)"
  have "g < length (gheap ?c1)" using Cons.prems(1) by (simp add: add_shapes_def Let_def)
  moreover have "distinct (sub_grps (gheap ?c1 ! g))"
    using Cons.prems by (simp add: add_shapes_def Let_def)
  ultimately show ?case using Cons.IH [of ?c1] by simp
qed

text \<open>
  Claim C6. With fewer than two shapes selected, \<open>group_shapes\<close> returns the state as it
  is: no group is allocated, no message is shown and no \<open>groups\<close> stack changes. With two
  or more, exactly one group is allocated (at the end of the group heap, the groups before
  it untouched) and appended to \<open>canvas_group\<close>, its member list is the selection, the
  message is \<^verbatim>\<open>Group Formed\<close>, and (the selection holding each shape once) the new group is
  pushed on the \<open>groups\<close> stack of every selected shape.
\<close>

theorem group_shapes_two_or_more:
  "(length (selected_shapes c) < 2 \<longrightarrow> group_shapes c = c) \<and>
   (2 \<le> length (selected_shapes c) \<longrightarrow>
      canvas_group (group_shapes c) = canvas_group c @ [length (gheap c)] \<and>
      length (gheap (group_shapes c)) = Suc (length (gheap c)) \<and>
      (\<forall>j < length (gheap c). gheap (group_shapes c) ! j = gheap c ! j) \<and>
      g_shapes (gheap (group_shapes c) ! length (gheap c)) = selected_shapes c \<and>
      popups (group_shapes c) = popups c @ [''Group Formed''] \<and>
      (distinct (selected_shapes c) \<and> (\<forall>s \<in> set (selected_shapes c). s < length (sheap c)) \<longrightarrow>
         (\<forall>s \<in> set (selected_shapes c).
            groups (sheap (group_shapes c) ! s) = groups (sheap c ! s) @ [length (gheap c)])))"
proof (intro conjI impI)
  assume "length (selected_shapes c) < 2"
  then show "group_shapes c = c" by (simp add: group_shapes_def)
next
  let ?g = "length (gheap c)"
  let ?c1 = "c\<lparr>gheap := gheap c @ [\<lparr>g_shapes = [], indv_shapes = [], sub_grps = []\<rparr>]\<rparr>"
  let ?c2 = "group_loop ?g (selected_shapes c) ?c1"
  assume two: "2 \<le> length (selected_shapes c)"
  then have gs: "group_shapes c
      = show_popup_message ''Group Formed'' (?c2\<lparr>canvas_group := canvas_group ?c2 @ [?g]\<rparr>)"
    by (simp add: group_shapes_def Let_def)
  have fr: "?c2 = ?c1\<lparr>sheap := sheap ?c2, gheap := gheap ?c2\<rparr>"
    by (rule group_loop_frame)
  have cg: "canvas_group ?c2 = canvas_group c" and pp: "popups ?c2 = popups c"
    by (subst fr, simp)+
  show "canvas_group (group_shapes c) = canvas_group c @ [?g]"
    by (simp add: gs show_popup_message_def cg)
  show "length (gheap (group_shapes c)) = Suc ?g"
    by (simp add: gs show_popup_message_def)
  show "\<forall>j < ?g. gheap (group_shapes c) ! j = gheap c ! j"
    by (simp add: gs show_popup_message_def group_loop_gheap_other nth_append)
  show "g_shapes (gheap (group_shapes c) ! ?g) = selected_shapes c"
    by (simp add: gs show_popup_message_def group_loop_g_shapes)
  show "popups (group_shapes c) = popups c @ [''Group Formed'']"
    by (simp add: gs show_popup_message_def pp)
  {
    assume wf: "distinct (selected_shapes c) \<and> (\<forall>s \<in> set (selected_shapes c). s < length (sheap c))"
    show "\<forall>s \<in> set (selected_shapes c).
            groups (sheap (group_shapes c) ! s) = groups (sheap c ! s) @ [?g]"
    proof
      fix s assume "s \<in> set (selected_shapes c)"
      with wf have "sheap ?c2 ! s = (sheap ?c1 ! s)\<lparr>groups := groups (sheap ?c1 ! s) @ [?g]\<rparr>"
        by (intro group_loop_sheap_member) simp_all
      then show "groups (sheap (group_shapes c) ! s) = groups (sheap c ! s) @ [?g]"
        by (simp add: gs show_popup_message_def)
    qed
  }
qed

theorem group_shapes_two_or_more_witness:
  "group_shapes (three_shapes\<lparr>selected_shapes := [1]\<rparr>) = three_shapes\<lparr>selected_shapes := [1]\<rparr> \<and>
   canvas_group (group_shapes (three_shapes\<lparr>selected_shapes := [0, 2]\<rparr>)) = [0] \<and>
   g_shapes (gheap (group_shapes (three_shapes\<lparr>selected_shapes := [0, 2]\<rparr>)) ! 0) = [0, 2] \<and>
   groups (sheap (group_shapes (three_shapes\<lparr>selected_shapes := [0, 2]\<rparr>)) ! 0) = [0] \<and>
   groups (sheap (group_shapes (three_shapes\<lparr>selected_shapes := [0, 2]\<rparr>)) ! 2) = [0] \<and>
   popups (group_shapes (three_shapes\<lparr>selected_shapes := [0, 2]\<rparr>)) = [''Group Formed'']"
  using group_shapes_two_or_more [of "three_shapes\<lparr>selected_shapes := [1]\<rparr>"]
    group_shapes_two_or_more [of "three_shapes\<lparr>selected_shapes := [0, 2]\<rparr>"]
  by (simp add: three_shapes_def init_canvas_def Line_init_def Rectangle_init_def)

text \<open>
  What \<open>add_shapes\<close> tests is whether the stack of the shape is empty: in the group that
  \<open>group_shapes\<close> creates, \<open>indv_shapes\<close> holds the selected shapes whose stack was empty, in
  selection order, and \<open>sub_grps\<close> holds, without duplicates, the innermost groups of the
  others.
\<close>

lemma group_members_by_stack:
  assumes "2 \<le> length (selected_shapes c)" and "distinct (selected_shapes c)"
  shows "indv_shapes (gheap (group_shapes c) ! length (gheap c))
           = filter (\<lambda>s. groups (sheap c ! s) = []) (selected_shapes c) \<and>
         distinct (sub_grps (gheap (group_shapes c) ! length (gheap c))) \<and>
         set (sub_grps (gheap (group_shapes c) ! length (gheap c)))
           = (\<lambda>s. last (groups (sheap c ! s))) `
               {s \<in> set (selected_shapes c). groups (sheap c ! s) \<noteq> []}"
proof -
  let ?g = "length (gheap c)"
  let ?c1 = "c\<lparr>gheap := gheap c @ [\<lparr>g_shapes = [], indv_shapes = [], sub_grps = []\<rparr>]\<rparr>"
  let ?c2 = "group_loop ?g (selected_shapes c) ?c1"
  from assms(1) have gs: "gheap (group_shapes c) = gheap ?c2"
    by (simp add: group_shapes_def Let_def show_popup_message_def)
  have lt: "?g < length (gheap ?c1)" by simp
  have "indv_shapes (gheap (group_shapes c) ! ?g)
           = filter (\<lambda>s. groups (sheap c ! s) = []) (selected_shapes c)"
    using group_loop_indv_shapes [OF assms(2) lt] by (simp add: gs)
  moreover have "distinct (sub_grps (gheap (group_shapes c) ! ?g))"
    using group_loop_sub_grps_distinct [OF lt, of "selected_shapes c"] by (simp add: gs)
  moreover have "set (sub_grps (gheap (group_shapes c) ! ?g))
           = (\<lambda>s. last (groups (sheap c ! s))) `
               {s \<in> set (selected_shapes c). groups (sheap c ! s) \<noteq> []}"
    using group_loop_sub_grps_set [OF assms(2) lt] by (simp add: gs)
  ultimately show ?thesis by blast
qed

lemma spec_direct_shapes_whole_groups:
  assumes "\<forall>s \<in> set (selected_shapes c). groups (sheap c ! s) \<noteq> [] \<longrightarrow>
             (\<exists>t \<in> set (selected_shapes c). t \<noteq> s \<and> groups (sheap c ! t) \<noteq> [] \<and>
                 last (groups (sheap c ! t)) = last (groups (sheap c ! s)))"
  shows "spec_direct_shapes c = filter (\<lambda>s. groups (sheap c ! s) = []) (selected_shapes c)"
  unfolding spec_direct_shapes_def
proof (rule filter_cong [OF refl])
  fix s assume s: "s \<in> set (selected_shapes c)"
  show "(groups (sheap c ! s) = [] \<or>
          \<not> list_ex (\<lambda>t. t \<noteq> s \<and> groups (sheap c ! t) \<noteq> [] \<and>
                           last (groups (sheap c ! t)) = last (groups (sheap c ! s)))
                   (selected_shapes c))
        = (groups (sheap c ! s) = [])"
  proof (cases "groups (sheap c ! s) = []")
    case True
    then show ?thesis by simp
  next
    case False
    with assms s have "\<exists>t \<in> set (selected_shapes c). t \<noteq> s \<and> groups (sheap c ! t) \<noteq> [] \<and>
                 last (groups (sheap c ! t)) = last (groups (sheap c ! s))"
      by blast
    then have "list_ex (\<lambda>t. t \<noteq> s \<and> groups (sheap c ! t) \<noteq> [] \<and>
                           last (groups (sheap c ! t)) = last (groups (sheap c ! s)))
                   (selected_shapes c)"
      unfolding list_ex_iff .
    with False show ?thesis by simp
  qed
qed





lemma groups_consistentD:
  assumes "groups_consistent c"
  shows "\<And>s g. s < length (sheap c) \<Longrightarrow> g \<in> set (groups (sheap c ! s)) \<Longrightarrow> g < length (gheap c)"
    and "\<And>g t. g < length (gheap c) \<Longrightarrow> t \<in> set (g_shapes (gheap c ! g)) \<Longrightarrow>
           t < length (sheap c) \<and> g \<in> set (groups (sheap c ! t))"
    and "\<And>s t g. s < length (sheap c) \<Longrightarrow> t < length (sheap c) \<Longrightarrow>
           g \<in> set (groups (sheap c ! s)) \<Longrightarrow> g \<in> set (groups (sheap c ! t)) \<Longrightarrow>
           last (groups (sheap c ! s)) = last (groups (sheap c ! t))"
    and "\<And>s g. s < length (sheap c) \<Longrightarrow> g \<in> set (groups (sheap c ! s)) \<Longrightarrow>
           \<exists>t \<in> set (g_shapes (gheap c ! g)). t \<noteq> s"
  using assms unfolding groups_consistent_def by (blast, blast, blast, blast)

lemma set_add_members: "set (add_members ts selected) = set selected \<union> set ts"
  by (induction ts arbitrary: selected) auto

lemma set_add_groups:
  "set (add_groups G gs selected) = set selected \<union> (\<Union>g \<in> set gs. set (g_shapes (G ! g)))"
  by (induction gs arbitrary: selected) (auto simp: set_add_members)

lemma distinct_add_members: "distinct selected \<Longrightarrow> distinct (add_members ts selected)"
  by (induction ts arbitrary: selected) auto

lemma distinct_add_groups: "distinct selected \<Longrightarrow> distinct (add_groups G gs selected)"
  by (induction gs arbitrary: selected) (auto simp: distinct_add_members)

lemma select_overlapping_frame:
  "sheap (select_overlapping hits c) = sheap c \<and> gheap (select_overlapping hits c) = gheap c"
  by (induction hits arbitrary: c) simp_all

lemma select_overlapping_distinct:
  "distinct (selected_shapes c) \<Longrightarrow> distinct (selected_shapes (select_overlapping hits c))"
  by (induction hits arbitrary: c) (simp_all add: distinct_add_groups)

lemma select_overlapping_top_group:
  assumes "groups_consistent c"
    and "\<forall>h \<in> set hits. h < length (sheap c)"
    and "\<forall>s \<in> set (selected_shapes c). s < length (sheap c) \<and>
           (groups (sheap c ! s) \<noteq> [] \<longrightarrow>
            set (g_shapes (gheap c ! last (groups (sheap c ! s)))) \<subseteq> set (selected_shapes c))"
  shows "\<forall>s \<in> set (selected_shapes (select_overlapping hits c)). s < length (sheap c) \<and>
           (groups (sheap c ! s) \<noteq> [] \<longrightarrow>
            set (g_shapes (gheap c ! last (groups (sheap c ! s))))
              \<subseteq> set (selected_shapes (select_overlapping hits c)))"
  using assms
proof (induction hits arbitrary: c)
  case Nil
  then show ?case by simp
next
  case (Cons h rest)
  from Cons.prems(2) have rest: "\<forall>h \<in> set rest. h < length (sheap c)" and h: "h < length (sheap c)"
    by simp_all
  note gc = groups_consistentD [OF Cons.prems(1)]
  show ?case
  proof (cases "h \<in> set (selected_shapes c)")
    case True
    then have "select_overlapping (h # rest) c = select_overlapping rest c" by simp
    with Cons.IH [OF Cons.prems(1) rest Cons.prems(3)] show ?thesis by (simp only:)
  next
    case False
    define sel where "sel = add_groups (gheap c) (groups (sheap c ! h)) (selected_shapes c @ [h])"
    define c1 where "c1 = c\<lparr>selected_shapes := sel\<rparr>"
    have c1: "sheap c1 = sheap c" "gheap c1 = gheap c" "selected_shapes c1 = sel"
      by (simp_all add: c1_def)
    have step: "select_overlapping (h # rest) c = select_overlapping rest c1"
      using False by (simp add: c1_def sel_def)
    have gc1: "groups_consistent c1"
      using Cons.prems(1) unfolding groups_consistent_def c1 .
    have sel: "set sel = set (selected_shapes c) \<union> {h}
                 \<union> (\<Union>g \<in> set (groups (sheap c ! h)). set (g_shapes (gheap c ! g)))"
      by (simp add: sel_def set_add_groups)
    have in1: "set (selected_shapes c) \<subseteq> set sel" unfolding sel by blast
    have in3: "set (g_shapes (gheap c ! g)) \<subseteq> set sel" if "g \<in> set (groups (sheap c ! h))" for g
      unfolding sel using that by blast
    have top: "s < length (sheap c) \<and>
               (groups (sheap c ! s) \<noteq> [] \<longrightarrow>
                set (g_shapes (gheap c ! last (groups (sheap c ! s)))) \<subseteq> set sel)"
      if s: "s \<in> set sel" for s
    proof -
      from s have "s \<in> set (selected_shapes c) \<or> s = h \<or>
          (\<exists>g \<in> set (groups (sheap c ! h)). s \<in> set (g_shapes (gheap c ! g)))"
        unfolding sel by blast
      then consider "s \<in> set (selected_shapes c)" | "s = h"
        | g where "g \<in> set (groups (sheap c ! h))" "s \<in> set (g_shapes (gheap c ! g))"
        by blast
      then show ?thesis
      proof cases
        case 1
        with Cons.prems(3) have sv: "s < length (sheap c)" and
          "groups (sheap c ! s) \<noteq> [] \<longrightarrow>
           set (g_shapes (gheap c ! last (groups (sheap c ! s)))) \<subseteq> set (selected_shapes c)"
          by blast+
        with in1 have "groups (sheap c ! s) \<noteq> [] \<longrightarrow>
           set (g_shapes (gheap c ! last (groups (sheap c ! s)))) \<subseteq> set sel"
          by (meson order_trans)
        with sv show ?thesis ..
      next
        case 2
        have "set (g_shapes (gheap c ! last (groups (sheap c ! s)))) \<subseteq> set sel"
          if "groups (sheap c ! s) \<noteq> []"
        proof -
          from that have "last (groups (sheap c ! s)) \<in> set (groups (sheap c ! s))"
            by (rule last_in_set)
          with 2 show ?thesis by (simp only: in3)
        qed
        with 2 h show ?thesis by blast
      next
        case 3
        from gc(1) [OF h 3(1)] have g: "g < length (gheap c)" .
        from gc(2) [OF g 3(2)] have sv: "s < length (sheap c)" and gs: "g \<in> set (groups (sheap c ! s))"
          by blast+
        from gc(3) [OF sv h gs 3(1)] have e: "last (groups (sheap c ! s)) = last (groups (sheap c ! h))" .
        from 3(1) have "groups (sheap c ! h) \<noteq> []" by auto
        then have "last (groups (sheap c ! h)) \<in> set (groups (sheap c ! h))" by (rule last_in_set)
        then have "set (g_shapes (gheap c ! last (groups (sheap c ! h)))) \<subseteq> set sel" by (rule in3)
        then have "set (g_shapes (gheap c ! last (groups (sheap c ! s)))) \<subseteq> set sel"
          unfolding e .
        with sv show ?thesis by blast
      qed
    qed
    have "\<forall>h \<in> set rest. h < length (sheap c1)" unfolding c1 by (rule rest)
    moreover have "\<forall>s \<in> set (selected_shapes c1). s < length (sheap c1) \<and>
           (groups (sheap c1 ! s) \<noteq> [] \<longrightarrow>
            set (g_shapes (gheap c1 ! last (groups (sheap c1 ! s)))) \<subseteq> set (selected_shapes c1))"
      unfolding c1 using top by blast
    ultimately have "\<forall>s \<in> set (selected_shapes (select_overlapping rest c1)). s < length (sheap c1) \<and>
           (groups (sheap c1 ! s) \<noteq> [] \<longrightarrow>
            set (g_shapes (gheap c1 ! last (groups (sheap c1 ! s))))
              \<subseteq> set (selected_shapes (select_overlapping rest c1)))"
      by (rule Cons.IH [OF gc1])
    then show ?thesis unfolding step c1 .
  qed
qed

text \<open>
  The selection code gives such selections: on consistent heaps and from the empty
  selection (a click leaves it empty), every selected shape with a non-empty stack is
  selected together with another shape that has the same innermost group.
\<close>

lemma select_overlapping_whole_groups:
  assumes gc: "groups_consistent c" and hits: "\<forall>h \<in> set hits. h < length (sheap c)"
    and "selected_shapes c = []"
  shows "\<forall>s \<in> set (selected_shapes (select_overlapping hits c)). groups (sheap c ! s) \<noteq> [] \<longrightarrow>
           (\<exists>t \<in> set (selected_shapes (select_overlapping hits c)). t \<noteq> s \<and>
               groups (sheap c ! t) \<noteq> [] \<and>
               last (groups (sheap c ! t)) = last (groups (sheap c ! s)))"
proof (intro ballI impI)
  let ?sel = "selected_shapes (select_overlapping hits c)"
  note gcD = groups_consistentD [OF gc]
  fix s assume s: "s \<in> set ?sel" and ne: "groups (sheap c ! s) \<noteq> []"
  let ?g = "last (groups (sheap c ! s))"
  have "\<forall>s \<in> set (selected_shapes c). s < length (sheap c) \<and>
           (groups (sheap c ! s) \<noteq> [] \<longrightarrow>
            set (g_shapes (gheap c ! last (groups (sheap c ! s)))) \<subseteq> set (selected_shapes c))"
    using assms(3) by simp
  with gc hits have "\<forall>s \<in> set ?sel. s < length (sheap c) \<and>
           (groups (sheap c ! s) \<noteq> [] \<longrightarrow>
            set (g_shapes (gheap c ! last (groups (sheap c ! s)))) \<subseteq> set ?sel)"
    by (rule select_overlapping_top_group)
  with s ne have sv: "s < length (sheap c)" and sub: "set (g_shapes (gheap c ! ?g)) \<subseteq> set ?sel"
    by blast+
  from ne have g: "?g \<in> set (groups (sheap c ! s))" by simp
  from gcD(1) [OF sv g] have gv: "?g < length (gheap c)" .
  from gcD(4) [OF sv g] obtain t where t: "t \<in> set (g_shapes (gheap c ! ?g))" "t \<noteq> s" by blast
  from gcD(2) [OF gv t(1)] have tv: "t < length (sheap c)" and gt: "?g \<in> set (groups (sheap c ! t))"
    by simp_all
  from gcD(3) [OF tv sv gt g] have "last (groups (sheap c ! t)) = ?g" .
  moreover from gt have "groups (sheap c ! t) \<noteq> []" by auto
  ultimately show "\<exists>t \<in> set ?sel. t \<noteq> s \<and> groups (sheap c ! t) \<noteq> [] \<and>
               last (groups (sheap c ! t)) = last (groups (sheap c ! s))"
    using t sub by blast
qed

text \<open>
  So for every selection that the selection code builds from the empty selection on
  consistent heaps, the direct shapes of the new group are those of the specification.
\<close>

lemma group_after_selection:
  assumes gc: "groups_consistent c" and hits: "\<forall>h \<in> set hits. h < length (sheap c)"
    and empty: "selected_shapes c = []"
    and two: "2 \<le> length (selected_shapes (select_overlapping hits c))"
  shows "indv_shapes (gheap (group_shapes (select_overlapping hits c)) ! length (gheap c))
           = spec_direct_shapes (select_overlapping hits c)"
proof -
  let ?c' = "select_overlapping hits c"
  have fr: "sheap ?c' = sheap c" "gheap ?c' = gheap c"
    by (simp_all add: select_overlapping_frame)
  have d: "distinct (selected_shapes ?c')"
    by (rule select_overlapping_distinct) (simp add: empty)
  have w: "\<forall>s \<in> set (selected_shapes ?c'). groups (sheap ?c' ! s) \<noteq> [] \<longrightarrow>
             (\<exists>t \<in> set (selected_shapes ?c'). t \<noteq> s \<and> groups (sheap ?c' ! t) \<noteq> [] \<and>
                 last (groups (sheap ?c' ! t)) = last (groups (sheap ?c' ! s)))"
    unfolding fr by (rule select_overlapping_whole_groups [OF gc hits empty])
  from group_members_by_stack [OF two d] have
    "indv_shapes (gheap (group_shapes ?c') ! length (gheap ?c'))
       = filter (\<lambda>s. groups (sheap ?c' ! s) = []) (selected_shapes ?c')"
    by blast
  with spec_direct_shapes_whole_groups [OF w] show ?thesis by (simp add: fr)
qed

lemma pair_grouped_clicked_heaps:
  "map groups (sheap pair_grouped_clicked) = [[0], [], [0]] \<and>
   map g_shapes (gheap pair_grouped_clicked) = [[0, 2]] \<and>
   selected_shapes pair_grouped_clicked = []"
  by code_simp

lemma pair_grouped_consistent: "groups_consistent pair_grouped_clicked"
proof -
  from pair_grouped_clicked_heaps have
    l: "length (sheap pair_grouped_clicked) = 3" "length (gheap pair_grouped_clicked) = 1"
    by (metis length_map length_Cons list.size(3) numeral_3_eq_3 One_nat_def)+
  from pair_grouped_clicked_heaps l have
    g: "groups (sheap pair_grouped_clicked ! 0) = [0]" "groups (sheap pair_grouped_clicked ! 1) = []"
       "groups (sheap pair_grouped_clicked ! 2) = [0]" "g_shapes (gheap pair_grouped_clicked ! 0) = [0, 2]"
    by (metis nth_map nth_Cons_0 nth_Cons_Suc One_nat_def numeral_2_eq_2 numeral_3_eq_3
          lessI less_Suc_eq zero_less_Suc)+
  have "{..<(3::nat)} = {0, 1, 2}" "{..<(1::nat)} = {0}" by auto
  with l g show ?thesis by (simp add: groups_consistent_def)
qed

lemma common_flag_zero:
  "common_flag h g ss = 0 \<longleftrightarrow> (\<forall>s \<in> set ss. groups (h ! s) \<noteq> [] \<and> last (groups (h ! s)) = g)"
  by (induction ss) auto

lemma common_flag_nonzero:
  "common_flag h g ss \<noteq> 0 \<longleftrightarrow> (\<exists>s \<in> set ss. groups (h ! s) = [] \<or> last (groups (h ! s)) \<noteq> g)"
  by (induction ss) auto

lemma ungroup_loop_frame_ex:
  "ungroup_loop g ss c = Inr c' \<Longrightarrow> \<exists>h G. c' = c\<lparr>sheap := h, gheap := G\<rparr>"
proof (induction ss arbitrary: c)
  case Nil
  then have "c' = c\<lparr>sheap := sheap c, gheap := gheap c\<rparr>" by simp
  then show ?case by blast
next
  case (Cons s ss)
  let ?c0 = "c\<lparr>sheap := (sheap c)[s := (sheap c ! s)\<lparr>groups := butlast (groups (sheap c ! s))\<rparr>]\<rparr>"
  from Cons.prems obtain c1 where r: "remove_shapes g s ?c0 = Inr c1" and l: "ungroup_loop g ss c1 = Inr c'"
    by (auto split: sum.splits)
  from l obtain h G where "c' = c1\<lparr>sheap := h, gheap := G\<rparr>" using Cons.IH by blast
  moreover from r obtain G1 where "c1 = ?c0\<lparr>gheap := G1\<rparr>"
    by (auto simp: remove_shapes_def split: if_splits)
  ultimately have "c' = c\<lparr>sheap := h, gheap := G\<rparr>" by simp
  then show ?case by blast
qed

lemma ungroup_loop_length:
  "ungroup_loop g ss c = Inr c' \<Longrightarrow> length (sheap c') = length (sheap c) \<and> length (gheap c') = length (gheap c)"
proof (induction ss arbitrary: c)
  case Nil
  then show ?case by simp
next
  case (Cons s ss)
  let ?c0 = "c\<lparr>sheap := (sheap c)[s := (sheap c ! s)\<lparr>groups := butlast (groups (sheap c ! s))\<rparr>]\<rparr>"
  from Cons.prems obtain c1 where r: "remove_shapes g s ?c0 = Inr c1" and l: "ungroup_loop g ss c1 = Inr c'"
    by (auto split: sum.splits)
  from r have "length (sheap c1) = length (sheap c)" "length (gheap c1) = length (gheap c)"
    by (auto simp: remove_shapes_def split: if_splits)
  with Cons.IH [OF l] show ?case by simp
qed

lemma ungroup_loop_sheap_other:
  "ungroup_loop g ss c = Inr c' \<Longrightarrow> i \<notin> set ss \<Longrightarrow> sheap c' ! i = sheap c ! i"
proof (induction ss arbitrary: c)
  case Nil
  then show ?case by simp
next
  case (Cons s ss)
  let ?c0 = "c\<lparr>sheap := (sheap c)[s := (sheap c ! s)\<lparr>groups := butlast (groups (sheap c ! s))\<rparr>]\<rparr>"
  from Cons.prems obtain c1 where r: "remove_shapes g s ?c0 = Inr c1" and l: "ungroup_loop g ss c1 = Inr c'"
    by (auto split: sum.splits)
  from Cons.prems have "i \<noteq> s" "i \<notin> set ss" by auto
  with r have "sheap c1 ! i = sheap c ! i"
    by (auto simp: remove_shapes_def split: if_splits)
  with Cons.IH [OF l \<open>i \<notin> set ss\<close>] show ?case by simp
qed

lemma ungroup_loop_sheap_member:
  "ungroup_loop g ss c = Inr c' \<Longrightarrow> distinct ss \<Longrightarrow> i \<in> set ss \<Longrightarrow> i < length (sheap c) \<Longrightarrow>
   sheap c' ! i = (sheap c ! i)\<lparr>groups := butlast (groups (sheap c ! i))\<rparr>"
proof (induction ss arbitrary: c)
  case Nil
  then show ?case by simp
next
  case (Cons s ss)
  let ?c0 = "c\<lparr>sheap := (sheap c)[s := (sheap c ! s)\<lparr>groups := butlast (groups (sheap c ! s))\<rparr>]\<rparr>"
  from Cons.prems obtain c1 where r: "remove_shapes g s ?c0 = Inr c1" and l: "ungroup_loop g ss c1 = Inr c'"
    by (auto split: sum.splits)
  from r have h1: "sheap c1 = sheap ?c0"
    by (auto simp: remove_shapes_def split: if_splits)
  show ?case
  proof (cases "i = s")
    case True
    with Cons.prems have "i \<notin> set ss" by simp
    with l have "sheap c' ! i = sheap c1 ! i" by (rule ungroup_loop_sheap_other)
    with True Cons.prems(4) h1 show ?thesis by simp
  next
    case False
    with Cons.prems have "distinct ss" "i \<in> set ss" "i < length (sheap c1)"
      by (simp_all add: h1)
    with l have "sheap c' ! i = (sheap c1 ! i)\<lparr>groups := butlast (groups (sheap c1 ! i))\<rparr>"
      by (intro Cons.IH)
    with False h1 show ?thesis by simp
  qed
qed

lemma ungroup_loop_gheap_other:
  "ungroup_loop g ss c = Inr c' \<Longrightarrow> j \<noteq> g \<Longrightarrow> gheap c' ! j = gheap c ! j"
proof (induction ss arbitrary: c)
  case Nil
  then show ?case by simp
next
  case (Cons s ss)
  let ?c0 = "c\<lparr>sheap := (sheap c)[s := (sheap c ! s)\<lparr>groups := butlast (groups (sheap c ! s))\<rparr>]\<rparr>"
  from Cons.prems obtain c1 where r: "remove_shapes g s ?c0 = Inr c1" and l: "ungroup_loop g ss c1 = Inr c'"
    by (auto split: sum.splits)
  from r Cons.prems(2) have "gheap c1 ! j = gheap c ! j"
    by (auto simp: remove_shapes_def split: if_splits)
  with Cons.IH [OF l Cons.prems(2)] show ?case by simp
qed

lemma ungroup_loop_members:
  "ungroup_loop g ss c = Inr c' \<Longrightarrow> g < length (gheap c) \<Longrightarrow>
   mset (g_shapes (gheap c' ! g)) = mset (g_shapes (gheap c ! g)) - mset ss \<and>
   indv_shapes (gheap c' ! g) = indv_shapes (gheap c ! g) \<and>
   sub_grps (gheap c' ! g) = sub_grps (gheap c ! g)"
proof (induction ss arbitrary: c)
  case Nil
  then show ?case by simp
next
  case (Cons s ss)
  let ?c0 = "c\<lparr>sheap := (sheap c)[s := (sheap c ! s)\<lparr>groups := butlast (groups (sheap c ! s))\<rparr>]\<rparr>"
  from Cons.prems obtain c1 where r: "remove_shapes g s ?c0 = Inr c1" and l: "ungroup_loop g ss c1 = Inr c'"
    by (auto split: sum.splits)
  from r Cons.prems(2) have g1: "g < length (gheap c1)"
    and m1: "mset (g_shapes (gheap c1 ! g)) = mset (g_shapes (gheap c ! g)) - {#s#}"
    and o1: "indv_shapes (gheap c1 ! g) = indv_shapes (gheap c ! g)"
            "sub_grps (gheap c1 ! g) = sub_grps (gheap c ! g)"
    by (auto simp: remove_shapes_def split: if_splits)
  from Cons.IH [OF l g1] m1 o1 show ?case
    by simp
qed

lemma ungroup_loop_succeeds:
  "distinct ss \<Longrightarrow> set ss \<subseteq> set (g_shapes (gheap c ! g)) \<Longrightarrow> g < length (gheap c) \<Longrightarrow>
   \<exists>c'. ungroup_loop g ss c = Inr c'"
proof (induction ss arbitrary: c)
  case Nil
  then show ?case by simp
next
  case (Cons s ss)
  let ?c0 = "c\<lparr>sheap := (sheap c)[s := (sheap c ! s)\<lparr>groups := butlast (groups (sheap c ! s))\<rparr>]\<rparr>"
  let ?c1 = "?c0\<lparr>gheap := (gheap ?c0)[g := (gheap ?c0 ! g)\<lparr>g_shapes := remove1 s (g_shapes (gheap ?c0 ! g))\<rparr>]\<rparr>"
  from Cons.prems have r: "remove_shapes g s ?c0 = Inr ?c1"
    by (simp add: remove_shapes_def)
  from Cons.prems have "distinct ss" "g < length (gheap ?c1)" by simp_all
  moreover have "set ss \<subseteq> set (g_shapes (gheap ?c1 ! g))"
  proof
    fix t assume "t \<in> set ss"
    with Cons.prems have "t \<noteq> s" "t \<in> set (g_shapes (gheap c ! g))" by auto
    with Cons.prems(3) show "t \<in> set (g_shapes (gheap ?c1 ! g))" by simp
  qed
  ultimately obtain c' where "ungroup_loop g ss ?c1 = Inr c'" using Cons.IH by blast
  with r show ?case by simp
qed


lemma common_iff:
  assumes "s0 \<in> A"
  shows "((\<forall>s \<in> A. P s) \<and> (\<forall>s \<in> A. \<forall>t \<in> A. f s = f t))
         \<longleftrightarrow> (P s0 \<and> (\<forall>s \<in> A. P s \<and> f s = f s0))"
proof
  assume l: "(\<forall>s \<in> A. P s) \<and> (\<forall>s \<in> A. \<forall>t \<in> A. f s = f t)"
  with assms show "P s0 \<and> (\<forall>s \<in> A. P s \<and> f s = f s0)" by blast
next
  assume r: "P s0 \<and> (\<forall>s \<in> A. P s \<and> f s = f s0)"
  then have "\<forall>s \<in> A. \<forall>t \<in> A. f s = f t" by metis
  with r show "(\<forall>s \<in> A. P s) \<and> (\<forall>s \<in> A. \<forall>t \<in> A. f s = f t)" by blast
qed


text \<open>
  Claim C5. On a selection in which every shape has a non-empty \<open>groups\<close> stack and all
  share the same innermost group, \<open>ungroup_shapes\<close> returns normally, every selected shape
  has lost the last entry of its stack, the selected shapes have been removed from the
  member list of that group, no other shape has changed, and the message is
  \<^verbatim>\<open>Objects Ungrouped\<close> (none for the empty selection). On any other selection it shows the
  message that the elements do not belong to a common group and changes nothing else, so no
  stack is popped. The hypotheses are what the program maintains: the selection holds each
  shape once, its references are allocated, and a shape is a member of its innermost group.
\<close>

theorem ungroup_shapes_atomic:
  assumes d: "distinct (selected_shapes c)"
    and v: "\<forall>s \<in> set (selected_shapes c). s < length (sheap c)"
    and gv: "\<forall>s \<in> set (selected_shapes c). \<forall>g \<in> set (groups (sheap c ! s)). g < length (gheap c)"
    and mem: "\<forall>s \<in> set (selected_shapes c). groups (sheap c ! s) \<noteq> [] \<longrightarrow>
                s \<in> set (g_shapes (gheap c ! last (groups (sheap c ! s))))"
  shows "if (\<forall>s \<in> set (selected_shapes c). groups (sheap c ! s) \<noteq> []) \<and>
            (\<forall>s \<in> set (selected_shapes c). \<forall>t \<in> set (selected_shapes c).
                last (groups (sheap c ! s)) = last (groups (sheap c ! t)))
         then \<exists>c'. ungroup_shapes c = Inr c' \<and>
                (\<forall>s \<in> set (selected_shapes c).
                    groups (sheap c' ! s) = butlast (groups (sheap c ! s)) \<and>
                    mset (g_shapes (gheap c' ! last (groups (sheap c ! s))))
                      = mset (g_shapes (gheap c ! last (groups (sheap c ! s)))) - mset (selected_shapes c)) \<and>
                (\<forall>i. i \<notin> set (selected_shapes c) \<longrightarrow> sheap c' ! i = sheap c ! i) \<and>
                popups c' = popups c @ (if selected_shapes c = [] then [] else [''Objects Ungrouped''])
         else ungroup_shapes c
                = Inr (show_popup_message ''The selected elements do not belong to a common group'' c)"
proof (cases "selected_shapes c")
  case Nil
  then show ?thesis by (simp add: ungroup_shapes_def)
next
  case (Cons s0 rest)
  let ?sel = "selected_shapes c"
  let ?g = "last (groups (sheap c ! s0))"
  let ?common = "(\<forall>s \<in> set ?sel. groups (sheap c ! s) \<noteq> []) \<and>
            (\<forall>s \<in> set ?sel. \<forall>t \<in> set ?sel. last (groups (sheap c ! s)) = last (groups (sheap c ! t)))"
  have s0: "s0 \<in> set ?sel" by (simp add: Cons)
  have flag: "?common \<longleftrightarrow> groups (sheap c ! s0) \<noteq> [] \<and> common_flag (sheap c) ?g ?sel = 0"
    unfolding common_flag_zero
    by (rule common_iff [OF s0, of "\<lambda>s. groups (sheap c ! s) \<noteq> []" "\<lambda>s. last (groups (sheap c ! s))"])
  show ?thesis
  proof (cases ?common)
    case True
    then have "groups (sheap c ! s0) \<noteq> [] \<and> common_flag (sheap c) ?g ?sel = 0"
      unfolding flag .
    then have f0: "groups (sheap c ! s0) \<noteq> []" "common_flag (sheap c) ?g ?sel = 0" by simp_all
    from True s0 have same: "\<And>s. s \<in> set ?sel \<Longrightarrow> last (groups (sheap c ! s)) = ?g" by blast
    from f0(1) gv s0 have g: "?g < length (gheap c)" by (meson last_in_set)
    have "set ?sel \<subseteq> set (g_shapes (gheap c ! ?g))"
    proof
      fix s assume a: "s \<in> set ?sel"
      with True mem have "s \<in> set (g_shapes (gheap c ! last (groups (sheap c ! s))))" by blast
      with same [OF a] show "s \<in> set (g_shapes (gheap c ! ?g))" by simp
    qed
    with d g obtain c1 where l: "ungroup_loop ?g ?sel c = Inr c1"
      using ungroup_loop_succeeds by blast
    let ?c' = "show_popup_message ''Objects Ungrouped'' c1"
    from l f0 have r: "ungroup_shapes c = Inr ?c'"
      by (simp add: ungroup_shapes_def Cons)
    from ungroup_loop_frame_ex [OF l] obtain h G where "c1 = c\<lparr>sheap := h, gheap := G\<rparr>" by blast
    then have pp: "popups ?c' = popups c @ [''Objects Ungrouped'']"
      by (simp add: show_popup_message_def)
    have st: "groups (sheap ?c' ! s) = butlast (groups (sheap c ! s)) \<and>
              mset (g_shapes (gheap ?c' ! last (groups (sheap c ! s))))
                = mset (g_shapes (gheap c ! last (groups (sheap c ! s)))) - mset ?sel"
      if a: "s \<in> set ?sel" for s
    proof -
      from a v have "s < length (sheap c)" by blast
      with l d a have "sheap c1 ! s = (sheap c ! s)\<lparr>groups := butlast (groups (sheap c ! s))\<rparr>"
        by (intro ungroup_loop_sheap_member)
      moreover from ungroup_loop_members [OF l g]
      have "mset (g_shapes (gheap c1 ! ?g)) = mset (g_shapes (gheap c ! ?g)) - mset ?sel" by simp
      ultimately show ?thesis by (simp add: show_popup_message_def same [OF a])
    qed
    have ot: "sheap ?c' ! i = sheap c ! i" if "i \<notin> set ?sel" for i
      using ungroup_loop_sheap_other [OF l that] by (simp add: show_popup_message_def)
    have "\<exists>c'. ungroup_shapes c = Inr c' \<and>
                (\<forall>s \<in> set (selected_shapes c).
                    groups (sheap c' ! s) = butlast (groups (sheap c ! s)) \<and>
                    mset (g_shapes (gheap c' ! last (groups (sheap c ! s))))
                      = mset (g_shapes (gheap c ! last (groups (sheap c ! s)))) - mset (selected_shapes c)) \<and>
                (\<forall>i. i \<notin> set (selected_shapes c) \<longrightarrow> sheap c' ! i = sheap c ! i) \<and>
                popups c' = popups c @ (if selected_shapes c = [] then [] else [''Objects Ungrouped''])"
    proof (intro exI [of _ ?c'] conjI ballI allI impI)
      show "ungroup_shapes c = Inr ?c'" by (rule r)
      show "popups ?c' = popups c @ (if selected_shapes c = [] then [] else [''Objects Ungrouped''])"
        using pp by (simp add: Cons)
    qed (simp_all only: st ot not_False_eq_True)
    then show ?thesis unfolding if_P [OF True] .
  next
    case False
    then have "\<not> (groups (sheap c ! s0) \<noteq> [] \<and> common_flag (sheap c) ?g ?sel = 0)"
      unfolding flag .
    then have "groups (sheap c ! s0) = [] \<or> common_flag (sheap c) ?g ?sel \<noteq> 0" by simp
    then have "ungroup_shapes c
        = Inr (show_popup_message ''The selected elements do not belong to a common group'' c)"
      by (auto simp: ungroup_shapes_def Cons Let_def)
    then show ?thesis unfolding if_not_P [OF False] .
  qed
qed

theorem ungroup_shapes_atomic_witness:
  "(\<exists>c'. ungroup_shapes (group_shapes (three_shapes\<lparr>selected_shapes := [0, 2]\<rparr>)) = Inr c' \<and>
         groups (sheap c' ! 0) = [] \<and> groups (sheap c' ! 2) = [] \<and>
         g_shapes (gheap c' ! 0) = [] \<and>
         popups c' = [''Group Formed'', ''Objects Ungrouped'']) \<and>
   ungroup_shapes grouped_then_selected
     = Inr (show_popup_message ''The selected elements do not belong to a common group''
              grouped_then_selected)"
  using ungroup_shapes_atomic [of "group_shapes (three_shapes\<lparr>selected_shapes := [0, 2]\<rparr>)"]
    ungroup_shapes_atomic [of grouped_then_selected]
  by (simp add: example_defs, blast)

section \<open>Verification: the edit operation\<close>

text \<open>
  Claim C9. \<open>edit_selected_shape\<close> guards only the selection of more than one shape, where
  it shows its message and returns with nothing else changed; on the empty selection it
  reads the first element of the empty list and raises \<^verbatim>\<open>IndexError\<close>, whatever the answers
  to the prompts would be, and so does the release of the pointer in the mode \<^verbatim>\<open>edit\<close>.
\<close>

theorem edit_empty_selection_raises:
  "(selected_shapes c = [] \<longrightarrow>
      edit_selected_shape new_color new_style c = Inl IndexError \<and>
      (mode c = ''edit'' \<longrightarrow> on_release highlight new_color new_style ex ey c = Inl IndexError)) \<and>
   (1 < length (selected_shapes c) \<longrightarrow>
      edit_selected_shape new_color new_style c
        = Inr (show_popup_message ''Multiple objects cannot be edited at once'' c))"
  by (simp add: edit_selected_shape_def on_release_def bind_err_def)

theorem edit_empty_selection_raises_witness:
  "selected_shapes (set_mode ''edit'' init_canvas) = [] \<and>
   mode (set_mode ''edit'' init_canvas) = ''edit'' \<and>
   edit_selected_shape None None (set_mode ''edit'' init_canvas) = Inl IndexError \<and>
   on_release no_highlight None None 5 5 (set_mode ''edit'' init_canvas) = Inl IndexError \<and>
   1 < length (selected_shapes (three_shapes\<lparr>selected_shapes := [0, 1]\<rparr>)) \<and>
   edit_selected_shape (Some ''red'') None (three_shapes\<lparr>selected_shapes := [0, 1]\<rparr>)
     = Inr (show_popup_message ''Multiple objects cannot be edited at once''
              (three_shapes\<lparr>selected_shapes := [0, 1]\<rparr>))"
  using edit_empty_selection_raises [of "set_mode ''edit'' init_canvas" None None no_highlight 5 5]
    edit_empty_selection_raises [of "three_shapes\<lparr>selected_shapes := [0, 1]\<rparr>" "Some ''red''" None]
  by (simp add: set_mode_def init_canvas_def three_shapes_def)

lemma fold_tk_delete_frame:
  "shape_object (fold (\<lambda>i. tk_delete (Some i)) ids c) = shape_object c \<and>
   selected_shapes (fold (\<lambda>i. tk_delete (Some i)) ids c) = selected_shapes c"
  by (induction ids arbitrary: c) (simp_all add: tk_delete_def)

lemma clear_properties_text_frame:
  "shape_object (clear_properties_text c) = shape_object c \<and>
   selected_shapes (clear_properties_text c) = selected_shapes c"
  by (simp add: clear_properties_text_def fold_tk_delete_frame)

lemma update_rectangle_style_frame:
  "update_rectangle_style h sty col c = Inr c1 \<Longrightarrow>
   shape_object c1 = shape_object c \<and> selected_shapes c1 = selected_shapes c"
  by (auto simp: update_rectangle_style_def bind_err_def alloc_shape_def Let_def
           draw_rounded_rectangle_def create_polygon_def create_rectangle_def create_item_def
           split: sum.splits if_splits)

lemma itemconfig_fill_frame:
  "shape_object (itemconfig_fill h col c) = shape_object c \<and>
   selected_shapes (itemconfig_fill h col c) = selected_shapes c"
  by (simp add: itemconfig_fill_def split: option.splits)

lemma bind_err_InrE:
  assumes "bind_err m f = Inr y"
  obtains v where "m = Inr v" and "f v = Inr y"
  using assms by (cases m) (simp_all add: bind_err_def)

text \<open>
  With one shape selected, whatever the prompts answer: when \<open>edit_selected_shape\<close> returns,
  the selected shape has been taken out of the document and the selection is empty.
\<close>

lemma edit_deletes_selected:
  assumes sel: "selected_shapes c = [s]" and r: "edit_selected_shape new_color new_style c = Inr c'"
  shows "shape_object c' = remove1 s (shape_object c) \<and> selected_shapes c' = []"
proof -
  let ?h = "shape_id (sheap c ! s)"
  let ?mid = "\<lambda>shape_type.
     if shape_type = Some ''rectangle'' then
       (if truthy_str new_style \<and> truthy_str new_color
        then update_rectangle_style ?h (the new_style) (the new_color) c
        else Inr c)
     else if shape_type = Some ''line'' then
       (if truthy_str new_color then Inr (itemconfig_fill ?h (the new_color) c)
        else Inr c)
     else Inr c"
  from sel r have "bind_err (tk_type ?h c) (\<lambda>shape_type.
      bind_err (?mid shape_type)
        (\<lambda>c1. bind_err (delete_shape c1) (\<lambda>c2. Inr (clear_properties_text c2)))) = Inr c'"
    by (simp add: edit_selected_shape_def Let_def)
  then obtain ty where
    "bind_err (?mid ty) (\<lambda>c1. bind_err (delete_shape c1) (\<lambda>c2. Inr (clear_properties_text c2))) = Inr c'"
    by (rule bind_err_InrE)
  then obtain c1 where m: "?mid ty = Inr c1"
    and "bind_err (delete_shape c1) (\<lambda>c2. Inr (clear_properties_text c2)) = Inr c'"
    by (rule bind_err_InrE)
  then obtain c2 where del: "delete_shape c1 = Inr c2" and c': "c' = clear_properties_text c2"
    by (auto elim: bind_err_InrE)
  from m have fr: "shape_object c1 = shape_object c \<and> selected_shapes c1 = selected_shapes c"
    by (auto simp: itemconfig_fill_frame dest: update_rectangle_style_frame split: if_splits)
  from del fr sel have "shape_object c2 = remove1 s (shape_object c) \<and> selected_shapes c2 = []"
    by (auto simp: delete_shape_def bind_err_def Let_def tk_delete_def
             split: sum.splits if_splits option.splits)
  with c' show ?thesis by (simp add: clear_properties_text_frame)
qed

text \<open>
  Claim C2 (the code breaks it). A sharp blue rectangle is drawn and selected for editing;
  both prompts are cancelled. The rectangle is then gone from the document and from the
  render surface: \<open>delete_shape\<close> runs whether or not the prompts were answered.
\<close>

theorem cancelled_edit_deletes_shape:
  "map_sum id document (drawn ''rectangle'' ''blue'' ''s'' 0 0 40 30)
     = Inr [(Rectangle, PyInt 0, PyInt 0, PyInt 40, PyInt 30, ''blue'', Some ''s'')] \<and>
   map_sum id (\<lambda>c. (document c, items c 1, mode c))
     (bind_err (bind_err (drawn ''rectangle'' ''blue'' ''s'' 0 0 40 30) (select_first ''edit''))
        (on_release no_highlight None None 40 30))
     = Inr ([], None, [])"
  by code_simp

section \<open>Verification: copy and move\<close>

lemma move_one_effect:
  assumes "s \<in> set (shape_object c)" and "shape_id (sheap c ! s) \<noteq> None"
  shows "\<exists>c'. move_one dx dy s c = Inr c' \<and>
              sheap c' = (sheap c)[s := shifted dx dy (sheap c ! s)] \<and>
              shape_object c' = remove1 s (shape_object c) @ [s]"
proof -
  from assms(2) obtain i where i: "shape_id (sheap c ! s) = Some i" by auto
  show ?thesis
    using assms(1) i
    by (cases "items c i")
       (simp_all add: move_one_def bind_err_def tk_move_def Let_def shifted_def)
qed

lemma move_loop_effect:
  assumes "distinct ss" and "set ss \<subseteq> set (shape_object c)"
    and "\<forall>s \<in> set ss. s < length (sheap c) \<and> shape_id (sheap c ! s) \<noteq> None"
  shows "\<exists>c'. move_loop dx dy ss c = Inr c' \<and>
              length (sheap c') = length (sheap c) \<and>
              (\<forall>s \<in> set ss. sheap c' ! s = shifted dx dy (sheap c ! s)) \<and>
              (\<forall>j. j \<notin> set ss \<longrightarrow> sheap c' ! j = sheap c ! j) \<and>
              mset (shape_object c') = mset (shape_object c)"
  using assms
proof (induction ss arbitrary: c)
  case Nil
  then show ?case by simp
next
  case (Cons s ss)
  from Cons.prems have s: "s \<in> set (shape_object c)" "shape_id (sheap c ! s) \<noteq> None"
    "s < length (sheap c)" "s \<notin> set ss" "distinct ss"
    by simp_all
  from move_one_effect [OF s(1,2), of dx dy] obtain c1 where
    m: "move_one dx dy s c = Inr c1" and
    h1: "sheap c1 = (sheap c)[s := shifted dx dy (sheap c ! s)]" and
    o1: "shape_object c1 = remove1 s (shape_object c) @ [s]"
    by blast
  have sub1: "set ss \<subseteq> set (shape_object c1)"
  proof
    fix t assume t: "t \<in> set ss"
    with Cons.prems(2) s(4) have "t \<in> set (shape_object c)" "t \<noteq> s" by auto
    then show "t \<in> set (shape_object c1)" by (simp add: o1)
  qed
  have same1: "sheap c1 ! t = sheap c ! t" if "t \<noteq> s" for t
    using that by (simp add: h1)
  have ok1: "\<forall>t \<in> set ss. t < length (sheap c1) \<and> shape_id (sheap c1 ! t) \<noteq> None"
  proof
    fix t assume t: "t \<in> set ss"
    with s(4) have "t \<noteq> s" by auto
    with t Cons.prems(3) show "t < length (sheap c1) \<and> shape_id (sheap c1 ! t) \<noteq> None"
      by (simp add: h1)
  qed
  from Cons.IH [OF s(5) sub1 ok1] obtain c' where
    l: "move_loop dx dy ss c1 = Inr c'" and
    len: "length (sheap c') = length (sheap c1)" and
    mem: "\<forall>t \<in> set ss. sheap c' ! t = shifted dx dy (sheap c1 ! t)" and
    oth: "\<forall>j. j \<notin> set ss \<longrightarrow> sheap c' ! j = sheap c1 ! j" and
    ms: "mset (shape_object c') = mset (shape_object c1)"
    by blast
  have "move_loop dx dy (s # ss) c = Inr c'"
    using m l by (simp add: bind_err_def)
  moreover have "length (sheap c') = length (sheap c)" using len h1 by simp
  moreover have "\<forall>t \<in> set (s # ss). sheap c' ! t = shifted dx dy (sheap c ! t)"
  proof
    fix t assume t: "t \<in> set (s # ss)"
    show "sheap c' ! t = shifted dx dy (sheap c ! t)"
    proof (cases "t = s")
      case True
      with oth s(3,4) h1 show ?thesis by simp
    next
      case False
      with t have "t \<in> set ss" by simp
      with mem same1 [OF False] show ?thesis by simp
    qed
  qed
  moreover have "\<forall>j. j \<notin> set (s # ss) \<longrightarrow> sheap c' ! j = sheap c ! j"
    using oth same1 by simp
  moreover have "mset (shape_object c') = mset (shape_object c)"
    using ms o1 s(1) by simp
  ultimately show ?case by blast
qed


text \<open>
  What \<open>move_shape\<close> does for every selection it can handle: when the selection holds each
  shape once, every selected shape is in the document and has a handle, and the item of the
  first has at least four coordinates \<open>cs\<close>, the stored corners of every selected shape
  are shifted by the one vector \<open>(ex - (cs ! 2 + cs ! 0) / 2, ey - (cs ! 3 + cs ! 1) / 2)\<close>,
  no other shape changes, and the document holds the same shapes as often as before.
\<close>

lemma move_shape_translates:
  assumes sel: "selected_shapes c = s0 # rest"
    and d: "distinct (selected_shapes c)"
    and sub: "set (selected_shapes c) \<subseteq> set (shape_object c)"
    and ok: "\<forall>s \<in> set (selected_shapes c). s < length (sheap c) \<and> shape_id (sheap c ! s) \<noteq> None"
    and cs: "tk_coords (shape_id (sheap c ! s0)) c = Inr cs" and len: "4 \<le> length cs"
  shows "\<exists>c'. move_shape ex ey c = Inr c' \<and>
              (\<forall>s \<in> set (selected_shapes c).
                 sheap c' ! s = shifted (PyFloat (of_int ex - (cs ! 2 + cs ! 0) / 2))
                                        (PyFloat (of_int ey - (cs ! 3 + cs ! 1) / 2)) (sheap c ! s)) \<and>
              (\<forall>j. j \<notin> set (selected_shapes c) \<longrightarrow> sheap c' ! j = sheap c ! j) \<and>
              mset (shape_object c') = mset (shape_object c)"
proof -
  let ?c0 = "c\<lparr>moving := True\<rparr>"
  let ?dx = "PyFloat (of_int ex - (cs ! 2 + cs ! 0) / 2)"
  let ?dy = "PyFloat (of_int ey - (cs ! 3 + cs ! 1) / 2)"
  have "tk_coords h ?c0 = tk_coords h c" for h
    by (simp add: tk_coords_def split: option.splits)
  with cs have cs0: "tk_coords (shape_id (sheap ?c0 ! s0)) ?c0 = Inr cs" by simp
  have m: "move_shape ex ey c = move_loop ?dx ?dy (selected_shapes c) ?c0"
    using sel cs0 len by (simp add: move_shape_def bind_err_def Let_def num_half_def)
  have "distinct (selected_shapes c)" "set (selected_shapes c) \<subseteq> set (shape_object ?c0)"
    "\<forall>s \<in> set (selected_shapes c). s < length (sheap ?c0) \<and> shape_id (sheap ?c0 ! s) \<noteq> None"
    using d sub ok by simp_all
  from move_loop_effect [OF this, of ?dx ?dy] m show ?thesis by (simp, blast)
qed

text \<open>
  Claim C7 (the code breaks it). A rounded rectangle is a polygon item on the render
  surface, and \<open>copy_shape\<close> copies items of type \<^verbatim>\<open>rectangle\<close> and \<^verbatim>\<open>line\<close> only: the copy
  of a selected rounded rectangle at \<open>(10,10)-(50,50)\<close> adds nothing to the document. The
  sharp rectangle at the same place is copied to \<open>(60,60)-(100,100)\<close> with its color and
  style, the original is unchanged, and the mode is reset in both cases.
\<close>

theorem copy_skips_rounded_rectangle:
  "map_sum id (\<lambda>c. (document c, mode c))
     (bind_err (bind_err (drawn ''rectangle'' ''blue'' ''r'' 10 10 50 50) (select_first ''copy''))
        (on_release no_highlight None None 50 50))
     = Inr ([(Rectangle, PyInt 10, PyInt 10, PyInt 50, PyInt 50, ''blue'', Some ''r'')], []) \<and>
   map_sum id (\<lambda>c. (document c, mode c))
     (bind_err (bind_err (drawn ''rectangle'' ''blue'' ''s'' 10 10 50 50) (select_first ''copy''))
        (on_release no_highlight None None 50 50))
     = Inr ([(Rectangle, PyInt 10, PyInt 10, PyInt 50, PyInt 50, ''blue'', Some ''s''),
             (Rectangle, PyFloat 60, PyFloat 60, PyFloat 100, PyFloat 100, ''blue'', Some ''s'')], [])"
  by code_simp

text \<open>
  Claim C10 (the code breaks it). \<open>move_shape\<close> takes the mean of the first two points of
  the first selected shape's item. For a sharp rectangle these are its corners: dropped at
  \<open>(200,200)\<close>, the rectangle \<open>(0,0)-(100,100)\<close> becomes \<open>(150,150)-(250,250)\<close>, centred on the
  click. For a rounded rectangle they are twice the first point of the polygon,
  \<open>(x1 + 20, y1)\<close>: the same drop gives \<open>(180,200)-(280,300)\<close>, whose centre is
  \<open>(230,250)\<close>.
\<close>

theorem move_rounded_rectangle_off_centre:
  "map_sum id document
     (bind_err (bind_err (drawn ''rectangle'' ''blue'' ''s'' 0 0 100 100) (select_first ''ready_to_move''))
        (on_click 200 200))
     = Inr [(Rectangle, PyFloat 150, PyFloat 150, PyFloat 250, PyFloat 250, ''blue'', Some ''s'')] \<and>
   map_sum id document
     (bind_err (bind_err (drawn ''rectangle'' ''blue'' ''r'' 0 0 100 100) (select_first ''ready_to_move''))
        (on_click 200 200))
     = Inr [(Rectangle, PyFloat 180, PyFloat 200, PyFloat 280, PyFloat 300, ''blue'', Some ''r'')]"
  by code_simp

section \<open>Verification: saving and loading\<close>

text \<open>
  Claim C1 (the code breaks it). A sharp blue rectangle with the corners \<open>(0,0)\<close> and
  \<open>(40,30)\<close> is drawn and saved; the file holds \<^verbatim>\<open>rectangle 0 0 40 30 blue s\<close>. Loaded into a
  fresh canvas, the file gives a rectangle with \<open>y1 = 40\<close> and \<open>x2 = 0\<close>: the loader reads
  the second number as \<open>x2\<close> and the third as \<open>y1\<close>.
\<close>

theorem rectangle_round_trip_swaps_corners:
  "map_sum id document (drawn ''rectangle'' ''blue'' ''s'' 0 0 40 30)
     = Inr [(Rectangle, PyInt 0, PyInt 0, PyInt 40, PyInt 30, ''blue'', Some ''s'')] \<and>
   map_sum id (\<lambda>c. disk c ''drawing.txt'')
     (bind_err (drawn ''rectangle'' ''blue'' ''s'' 0 0 40 30) (save_file ''drawing.txt''))
     = Inr (Some (''rectangle 0 0 40 30 blue s'' @ [CHR 0x0A])) \<and>
   map_sum id document
     (bind_err (bind_err (drawn ''rectangle'' ''blue'' ''s'' 0 0 40 30) (save_file ''drawing.txt''))
        (\<lambda>c. open_file False ''drawing.txt'' (init_canvas\<lparr>disk := disk c\<rparr>)))
     = Inr [(Rectangle, PyInt 0, PyInt 40, PyInt 0, PyInt 30, ''blue'', Some ''s'')]"
  by code_simp

lemma tk_type_shapes [simp]: "tk_type h (c\<lparr>shapes := l\<rparr>) = tk_type h c"
  by (simp add: tk_type_def split: option.splits)

lemma shape_string_Inr:
  "shape_string ty sh = Inr l \<Longrightarrow>
   l = (case ty of None \<Rightarrow> ''None'' | Some t \<Rightarrow> t) @ '' '' @ str_num (x1 sh) @ '' '' @ str_num (y1 sh)
         @ '' '' @ str_num (x2 sh) @ '' '' @ str_num (y2 sh) @ '' '' @ color sh
         @ (if ty = Some ''rectangle'' then '' '' @ the (style sh) else [])"
  by (auto simp: shape_string_def Let_def split: if_splits option.splits)

lemma construct_loop_lines:
  "construct_loop ss c = Inr c' \<Longrightarrow>
   \<exists>ls. c' = c\<lparr>shapes := shapes c @ ls\<rparr> \<and> length ls = length ss \<and>
        (\<forall>k < length ss. \<exists>ty. tk_type (shape_id (sheap c ! (ss ! k))) c = Inr ty \<and>
                               shape_string ty (sheap c ! (ss ! k)) = Inr (ls ! k))"
proof (induction ss arbitrary: c)
  case Nil
  then have "c' = c\<lparr>shapes := shapes c @ []\<rparr>" by simp
  then show ?case by auto
next
  case (Cons s ss)
  from Cons.prems obtain ty l where
    ty: "tk_type (shape_id (sheap c ! s)) c = Inr ty" and
    l: "shape_string ty (sheap c ! s) = Inr l" and
    r: "construct_loop ss (c\<lparr>shapes := shapes c @ [l]\<rparr>) = Inr c'"
    by (auto simp: bind_err_def split: sum.splits)
  let ?c1 = "c\<lparr>shapes := shapes c @ [l]\<rparr>"
  from Cons.IH [OF r] obtain ls where
    c': "c' = ?c1\<lparr>shapes := shapes ?c1 @ ls\<rparr>" and len: "length ls = length ss" and
    each: "\<forall>k < length ss. \<exists>ty. tk_type (shape_id (sheap ?c1 ! (ss ! k))) ?c1 = Inr ty \<and>
                               shape_string ty (sheap ?c1 ! (ss ! k)) = Inr (ls ! k)"
    by blast
  have "c' = c\<lparr>shapes := shapes c @ (l # ls)\<rparr>" using c' by simp
  moreover have "length (l # ls) = length (s # ss)" using len by simp
  moreover have "\<forall>k < length (s # ss). \<exists>ty. tk_type (shape_id (sheap c ! ((s # ss) ! k))) c = Inr ty \<and>
                               shape_string ty (sheap c ! ((s # ss) ! k)) = Inr ((l # ls) ! k)"
  proof (intro allI impI)
    fix k assume k: "k < length (s # ss)"
    show "\<exists>ty. tk_type (shape_id (sheap c ! ((s # ss) ! k))) c = Inr ty \<and>
               shape_string ty (sheap c ! ((s # ss) ! k)) = Inr ((l # ls) ! k)"
    proof (cases k)
      case 0
      with ty l show ?thesis by simp
    next
      case (Suc j)
      with k have "j < length ss" by simp
      with each Suc show ?thesis by simp
    qed
  qed
  ultimately show ?case by blast
qed

text \<open>
  Claim C3, as amended. When \<open>construct_shape_from_shape_object\<close> returns, it has written
  one string for every shape of the document, in order; the first word is the type of the
  shape's item on the render surface (\<^verbatim>\<open>None\<close> when the handle names no item), and the
  corners, the color and (after the type \<^verbatim>\<open>rectangle\<close>) the style are the fields stored in
  the shape object.
\<close>

theorem saved_lines_use_stored_fields:
  assumes "construct_shape_from_shape_object c = Inr c'"
  shows "length (shapes c') = length (shape_object c) \<and>
         (\<forall>k < length (shape_object c).
            \<exists>ty. tk_type (shape_id (sheap c ! (shape_object c ! k))) c = Inr ty \<and>
                 shapes c' ! k
                   = (case ty of None \<Rightarrow> ''None'' | Some t \<Rightarrow> t)
                     @ '' '' @ str_num (x1 (sheap c ! (shape_object c ! k)))
                     @ '' '' @ str_num (y1 (sheap c ! (shape_object c ! k)))
                     @ '' '' @ str_num (x2 (sheap c ! (shape_object c ! k)))
                     @ '' '' @ str_num (y2 (sheap c ! (shape_object c ! k)))
                     @ '' '' @ color (sheap c ! (shape_object c ! k))
                     @ (if ty = Some ''rectangle''
                        then '' '' @ the (style (sheap c ! (shape_object c ! k))) else []))"
proof -
  let ?c0 = "c\<lparr>shapes := []\<rparr>"
  from assms have "construct_loop (shape_object c) ?c0 = Inr c'"
    by (simp add: construct_shape_from_shape_object_def)
  from construct_loop_lines [OF this] obtain ls where
    c': "c' = ?c0\<lparr>shapes := shapes ?c0 @ ls\<rparr>" and len: "length ls = length (shape_object c)" and
    each: "\<forall>k < length (shape_object c).
             \<exists>ty. tk_type (shape_id (sheap ?c0 ! (shape_object c ! k))) ?c0 = Inr ty \<and>
                  shape_string ty (sheap ?c0 ! (shape_object c ! k)) = Inr (ls ! k)"
    by blast
  from c' have sh: "shapes c' = ls" by simp
  show ?thesis
  proof (intro conjI allI impI)
    show "length (shapes c') = length (shape_object c)" using sh len by simp
  next
    fix k assume "k < length (shape_object c)"
    with each obtain ty where
      ty: "tk_type (shape_id (sheap c ! (shape_object c ! k))) c = Inr ty" and
      l: "shape_string ty (sheap c ! (shape_object c ! k)) = Inr (ls ! k)"
      by auto
    from shape_string_Inr [OF l] ty sh
    show "\<exists>ty. tk_type (shape_id (sheap c ! (shape_object c ! k))) c = Inr ty \<and>
                 shapes c' ! k
                   = (case ty of None \<Rightarrow> ''None'' | Some t \<Rightarrow> t)
                     @ '' '' @ str_num (x1 (sheap c ! (shape_object c ! k)))
                     @ '' '' @ str_num (y1 (sheap c ! (shape_object c ! k)))
                     @ '' '' @ str_num (x2 (sheap c ! (shape_object c ! k)))
                     @ '' '' @ str_num (y2 (sheap c ! (shape_object c ! k)))
                     @ '' '' @ color (sheap c ! (shape_object c ! k))
                     @ (if ty = Some ''rectangle''
                        then '' '' @ the (style (sheap c ! (shape_object c ! k))) else [])"
      by blast
  qed
qed

lemma stale_line_saved:
  "construct_shape_from_shape_object stale_line
     = Inr (stale_line\<lparr>shapes := [''line 10 10 20 20 black'']\<rparr>)"
  by (simp add: construct_shape_from_shape_object_def stale_line_def init_canvas_def Line_init_def
        bind_err_def tk_type_def shape_string_def str_int_def
        str_nat.simps [of 10] str_nat.simps [of 20] str_nat.simps [of 1] str_nat.simps [of 2] str_nat.simps [of 0] str_nat.simps [of "Suc 0"])

theorem saved_lines_use_stored_fields_witness:
  "construct_shape_from_shape_object stale_line
     = Inr (stale_line\<lparr>shapes := [''line 10 10 20 20 black'']\<rparr>) \<and>
   map_option icoords (items stale_line 2) = Some [10, 10, 100, 100] \<and>
   shapes (stale_line\<lparr>shapes := [''line 10 10 20 20 black'']\<rparr>) ! 0
     = ''line'' @ '' '' @ str_num (PyInt 10) @ '' '' @ str_num (PyInt 10) @ '' '' @ str_num (PyInt 20)
       @ '' '' @ str_num (PyInt 20) @ '' '' @ ''black''"
  using saved_lines_use_stored_fields [OF stale_line_saved]
  by (simp add: stale_line_saved)
     (simp add: stale_line_def init_canvas_def Line_init_def tk_type_def)

text \<open>
  Claim C3 as the specification states it fails where the stored fields and the render
  surface differ. The line below was drawn with two drag events: the object keeps the
  end point of the first, \<open>(20,20)\<close>, its item on the canvas has the end point of the last,
  \<open>(100,100)\<close>. The saved line has the stored end point.
\<close>

theorem save_stale_fields_counterexample:
  "map_sum id (\<lambda>c. (disk c ''drawing.txt'', shape_id (sheap c ! 0), map_option icoords (items c 2)))
     (bind_err line_two_drags (save_file ''drawing.txt''))
     = Inr (Some (''line 10 10 20 20 black'' @ [CHR 0x0A]), Some 2, Some [10, 10, 100, 100])"
  by code_simp

lemma update_frame:
  "shape_object (update r a b a' b' c) = shape_object c \<and>
   length (sheap (update r a b a' b' c)) = length (sheap c)"
  by (simp add: update_def Let_def set_shape_id_def create_line_def create_rectangle_def
        draw_rounded_rectangle_def create_polygon_def create_item_def tk_delete_def
        split: shape_class.splits option.splits)

lemma redraw_one_appends:
  "redraw_one str c = Inr c' \<Longrightarrow> \<exists>new. shape_object c' = shape_object c @ new"
  by (auto simp: redraw_one_def bind_err_def Let_def alloc_shape_def update_frame
           split: sum.splits if_splits)

lemma redraw_loop_appends:
  "redraw_loop strs c = Inr c' \<Longrightarrow> \<exists>new. shape_object c' = shape_object c @ new"
proof (induction strs arbitrary: c)
  case Nil
  then show ?case by simp
next
  case (Cons str strs)
  from Cons.prems obtain c1 where a: "redraw_one str c = Inr c1" and b: "redraw_loop strs c1 = Inr c'"
    by (auto simp: bind_err_def split: sum.splits)
  from redraw_one_appends [OF a] Cons.IH [OF b] show ?case by auto
qed

text \<open>
  \<open>open_file\<close> never takes a shape out of the document: when it returns, the shapes that
  were in \<open>shape_object\<close> are still there, in front of the loaded ones.
\<close>

lemma open_file_appends:
  "open_file confirm filename c = Inr c' \<Longrightarrow> \<exists>new. shape_object c' = shape_object c @ new"
proof -
  assume a: "open_file confirm filename c = Inr c'"
  show ?thesis
  proof (cases "(unsaved_changes c \<and> \<not> confirm) \<or> filename = []")
    case True
    with a have "c' = c" by (auto simp: open_file_def split: if_splits)
    then show ?thesis by simp
  next
    case False
    with a obtain content c2 where
      r: "redraw_shapes (tk_delete_all (c\<lparr>file_opened := True, shapes := []\<rparr>)
                           \<lparr>shapes := map py_strip (file_lines content)\<rparr>) = Inr c2" and
      c': "c' = c2\<lparr>current_file := Some filename, unsaved_changes := False\<rparr>"
      by (auto simp: open_file_def Let_def bind_err_def split: option.splits sum.splits)
    from r have "redraw_loop (map py_strip (file_lines content))
                   (tk_delete_all (c\<lparr>file_opened := True, shapes := []\<rparr>)
                      \<lparr>shapes := map py_strip (file_lines content)\<rparr>) = Inr c2"
      by (simp add: redraw_shapes_def)
    from redraw_loop_appends [OF this] have "\<exists>new. shape_object c2 = shape_object c @ new"
      by (simp add: tk_delete_all_def)
    with c' show ?thesis by simp
  qed
qed

text \<open>
  Claim C4 (the code breaks it). A canvas with one drawn line opens a file with one other
  line. The item of the old line is deleted from the render surface, but the old object
  stays in \<open>shape_object\<close>, in front of the shape read from the file; a save after that
  writes it with the type \<^verbatim>\<open>None\<close>.
\<close>

theorem open_file_keeps_old_shapes:
  "map_sum id (\<lambda>c. (document c, map (\<lambda>s. shape_id (sheap c ! s)) (shape_object c), items c 1,
                     map_option icoords (items c 2)))
     (bind_err (drawn ''line'' ''black'' ''s'' 10 10 50 50)
        (\<lambda>c. open_file False ''other.txt''
                (c\<lparr>disk := (disk c)(''other.txt'' \<mapsto> ''line 1 2 3 4 red'' @ [CHR 0x0A])\<rparr>)))
     = Inr ([(Line, PyInt 10, PyInt 10, PyInt 50, PyInt 50, ''black'', None),
             (Line, PyInt 1, PyInt 2, PyInt 3, PyInt 4, ''red'', None)],
            [Some 1, Some 2], None, Some [1, 2, 3, 4]) \<and>
   map_sum id (\<lambda>c. disk c ''other.txt'')
     (bind_err
        (bind_err (drawn ''line'' ''black'' ''s'' 10 10 50 50)
           (\<lambda>c. open_file False ''other.txt''
                   (c\<lparr>disk := (disk c)(''other.txt'' \<mapsto> ''line 1 2 3 4 red'' @ [CHR 0x0A])\<rparr>)))
        (save_file []))
     = Inr (Some (''None 10 10 50 50 black'' @ [CHR 0x0A] @ ''line 1 2 3 4 red'' @ [CHR 0x0A]))"
  by code_simp

end
